theory Spec2Isabelle
  imports Main "HOL-Library.Word"
begin

section \<open>The Erlang side of the NIF interface\<close>

text \<open>
  The handlers of \<^verbatim>\<open>c_src/enacl_nif.c\<close> receive Erlang terms and return Erlang terms.
  Only the terms the handlers can tell apart are modelled: atoms, integers (unbounded, as
  in Erlang), binaries, tuples and (possibly improper) lists.
\<close>

type_synonym byte = "8 word"
type_synonym bytes = "byte list"

datatype eterm =
    Atom string
  | Integer int
  | Binary bytes
  | Tuple "eterm list"
  | ENil
  | ECons eterm eterm

text \<open>
  What a handler hands back to the emulator: the badarg exception of
  \<^verbatim>\<open>enif_make_badarg\<close>, an ordinary term, or nothing defined at all, when
  \<^verbatim>\<open>enif_make_sub_binary\<close> is called outside the binary it is given.
\<close>

datatype nif_ret = Badarg | Term eterm | Undefined_sub_binary

subsection \<open>Decoding arguments\<close>

text \<open>\<^verbatim>\<open>enif_inspect_binary\<close> succeeds on a binary and on nothing else.\<close>

fun enif_inspect_binary :: "eterm \<Rightarrow> bytes option" where
  "enif_inspect_binary (Binary b) = Some b"
| "enif_inspect_binary _ = None"

text \<open>
  \<^verbatim>\<open>enif_inspect_iolist_as_binary\<close> succeeds on a binary and on an iolist: a list
  whose elements are bytes, binaries or iolists, and whose tail is a binary or the empty
  list. The result is the concatenation of the bytes.
\<close>

fun iolist_element :: "eterm \<Rightarrow> bytes option"
  and enif_inspect_iolist_as_binary :: "eterm \<Rightarrow> bytes option" where
  "iolist_element (Integer i) =
     (if 0 \<le> i \<and> i \<le> 255 then Some [word_of_int i] else None)"
| "iolist_element (Binary b) = Some b"
| "iolist_element ENil = Some []"
| "iolist_element (ECons h t) =
     (case iolist_element h of None \<Rightarrow> None
      | Some hb \<Rightarrow> (case enif_inspect_iolist_as_binary t of None \<Rightarrow> None
                    | Some tb \<Rightarrow> Some (hb @ tb)))"
| "iolist_element (Atom a) = None"
| "iolist_element (Tuple ts) = None"
| "enif_inspect_iolist_as_binary (Binary b) = Some b"
| "enif_inspect_iolist_as_binary ENil = Some []"
| "enif_inspect_iolist_as_binary (ECons h t) =
     (case iolist_element h of None \<Rightarrow> None
      | Some hb \<Rightarrow> (case enif_inspect_iolist_as_binary t of None \<Rightarrow> None
                    | Some tb \<Rightarrow> Some (hb @ tb)))"
| "enif_inspect_iolist_as_binary (Integer i) = None"
| "enif_inspect_iolist_as_binary (Atom a) = None"
| "enif_inspect_iolist_as_binary (Tuple ts) = None"

text \<open>
  \<^verbatim>\<open>enif_get_uint64\<close> succeeds on an integer that fits an \<^verbatim>\<open>ErlNifUInt64\<close>.
\<close>

fun enif_get_uint64 :: "eterm \<Rightarrow> nat option" where
  "enif_get_uint64 (Integer i) = (if 0 \<le> i \<and> i < 2 ^ 64 then Some (nat i) else None)"
| "enif_get_uint64 _ = None"

subsection \<open>Building results\<close>

definition enif_make_atom :: "string \<Rightarrow> eterm" where
  "enif_make_atom a = Atom a"

definition enif_make_tuple2 :: "eterm \<Rightarrow> eterm \<Rightarrow> eterm" where
  "enif_make_tuple2 x y = Tuple [x, y]"

definition enif_make_binary :: "bytes \<Rightarrow> eterm" where
  "enif_make_binary data = Binary data"

definition enif_make_int64 :: "nat \<Rightarrow> nif_ret" where
  "enif_make_int64 n = Term (Integer (int n))"

text \<open>
  \<^verbatim>\<open>size_t\<close> subtraction, with the wrap-around of a 64-bit machine written out for the
  case where the subtrahend is the larger one.
\<close>

definition size_t_sub :: "nat \<Rightarrow> nat \<Rightarrow> nat" where
  "size_t_sub a b = (if b \<le> a then a - b else 2 ^ 64 - (b - a))"

text \<open>
  \<^verbatim>\<open>enif_make_sub_binary(env, bin, pos, size)\<close> requires \<open>pos + size\<close> to lie within the
  binary; outside that the emulator promises nothing.
\<close>

definition enif_make_sub_binary :: "bytes \<Rightarrow> nat \<Rightarrow> nat \<Rightarrow> nif_ret" where
  "enif_make_sub_binary bin pos sz =
     (if pos + sz \<le> length bin then Term (Binary (take sz (drop pos bin)))
      else Undefined_sub_binary)"

text \<open>\<^verbatim>\<open>nacl_error_tuple\<close>, lines 6-9.\<close>

definition nacl_error_tuple :: "string \<Rightarrow> nif_ret" where
  "nacl_error_tuple error_atom =
     Term (enif_make_tuple2 (enif_make_atom ''error'') (enif_make_atom error_atom))"

subsection \<open>The world a handler runs in\<close>

text \<open>
  A handler has three effects: it asks the emulator for output buffers, which may be
  refused; it runs a primitive of libsodium; and the key generators draw randomness.
  The world records the answers the allocator is going to give (none left means the
  request is granted), the state of the random generator, and the trace of what the
  handler did.
\<close>

datatype event =
    Alloc nat bool
  | Release
  | Exec string

record world =
  alloc_results :: "bool list"
  rng_state :: nat
  trace :: "event list"

definition enif_alloc_binary :: "nat \<Rightarrow> world \<Rightarrow> bool \<times> world" where
  "enif_alloc_binary n w =
     (case alloc_results w of
        [] \<Rightarrow> (True, w\<lparr>trace := trace w @ [Alloc n True]\<rparr>)
      | ok # rest \<Rightarrow> (ok, w\<lparr>alloc_results := rest, trace := trace w @ [Alloc n ok]\<rparr>))"

definition enif_release_binary :: "world \<Rightarrow> world" where
  "enif_release_binary w = w\<lparr>trace := trace w @ [Release]\<rparr>"

definition executed :: "string \<Rightarrow> world \<Rightarrow> world" where
  "executed prim w = w\<lparr>trace := trace w @ [Exec prim]\<rparr>"

text \<open>
  A primitive writes into a buffer whose size was fixed when it was allocated: whatever
  the primitive produces, the binary keeps that size.
\<close>

definition written :: "nat \<Rightarrow> bytes \<Rightarrow> bytes" where
  "written n out = take n out @ replicate (n - length out) 0"

section \<open>libsodium\<close>

text \<open>
  The primitives are an external library. Each is a parameter of the model: a function
  from the input buffers to the return code and the bytes written. The key generators
  also read the state of the random generator.
\<close>

record sodium =
  crypto_hash :: "bytes \<Rightarrow> int \<times> bytes"
  crypto_verify_16 :: "bytes \<Rightarrow> bytes \<Rightarrow> int"
  crypto_verify_32 :: "bytes \<Rightarrow> bytes \<Rightarrow> int"
  crypto_box_keypair :: "nat \<Rightarrow> bytes \<times> bytes"
  crypto_box :: "bytes \<Rightarrow> bytes \<Rightarrow> bytes \<Rightarrow> bytes \<Rightarrow> int \<times> bytes"
  crypto_box_open :: "bytes \<Rightarrow> bytes \<Rightarrow> bytes \<Rightarrow> bytes \<Rightarrow> int \<times> bytes"
  crypto_sign_keypair :: "nat \<Rightarrow> bytes \<times> bytes"
  crypto_sign :: "bytes \<Rightarrow> bytes \<Rightarrow> int \<times> bytes \<times> nat"
  crypto_sign_open :: "bytes \<Rightarrow> bytes \<Rightarrow> int \<times> bytes \<times> nat"
  crypto_secretbox :: "bytes \<Rightarrow> bytes \<Rightarrow> bytes \<Rightarrow> int \<times> bytes"
  crypto_secretbox_open :: "bytes \<Rightarrow> bytes \<Rightarrow> bytes \<Rightarrow> int \<times> bytes"
  crypto_stream :: "nat \<Rightarrow> bytes \<Rightarrow> bytes \<Rightarrow> int \<times> bytes"
  crypto_stream_xor :: "bytes \<Rightarrow> bytes \<Rightarrow> bytes \<Rightarrow> int \<times> bytes"
  crypto_auth :: "bytes \<Rightarrow> bytes \<Rightarrow> int \<times> bytes"
  crypto_auth_verify :: "bytes \<Rightarrow> bytes \<Rightarrow> bytes \<Rightarrow> int"
  crypto_onetimeauth :: "bytes \<Rightarrow> bytes \<Rightarrow> int \<times> bytes"
  crypto_onetimeauth_verify :: "bytes \<Rightarrow> bytes \<Rightarrow> bytes \<Rightarrow> int"

text \<open>
  The size macros come from \<^verbatim>\<open>sodium.h\<close>, which is not part of the repository. Their
  values are those of libsodium, the ones the claims quote (32-byte keys, 24-byte nonces,
  ZEROBYTES 32, BOXZEROBYTES 16).
\<close>

abbreviation (input) crypto_hash_BYTES :: nat where "crypto_hash_BYTES \<equiv> 64"
abbreviation (input) crypto_box_NONCEBYTES :: nat where "crypto_box_NONCEBYTES \<equiv> 24"
abbreviation (input) crypto_box_ZEROBYTES :: nat where "crypto_box_ZEROBYTES \<equiv> 32"
abbreviation (input) crypto_box_BOXZEROBYTES :: nat where "crypto_box_BOXZEROBYTES \<equiv> 16"
abbreviation (input) crypto_box_PUBLICKEYBYTES :: nat where "crypto_box_PUBLICKEYBYTES \<equiv> 32"
abbreviation (input) crypto_box_SECRETKEYBYTES :: nat where "crypto_box_SECRETKEYBYTES \<equiv> 32"
abbreviation (input) crypto_sign_PUBLICKEYBYTES :: nat where "crypto_sign_PUBLICKEYBYTES \<equiv> 32"
abbreviation (input) crypto_sign_SECRETKEYBYTES :: nat where "crypto_sign_SECRETKEYBYTES \<equiv> 64"
abbreviation (input) crypto_sign_BYTES :: nat where "crypto_sign_BYTES \<equiv> 64"
abbreviation (input) crypto_secretbox_NONCEBYTES :: nat where "crypto_secretbox_NONCEBYTES \<equiv> 24"
abbreviation (input) crypto_secretbox_KEYBYTES :: nat where "crypto_secretbox_KEYBYTES \<equiv> 32"
abbreviation (input) crypto_secretbox_ZEROBYTES :: nat where "crypto_secretbox_ZEROBYTES \<equiv> 32"
abbreviation (input) crypto_secretbox_BOXZEROBYTES :: nat where "crypto_secretbox_BOXZEROBYTES \<equiv> 16"
abbreviation (input) crypto_stream_KEYBYTES :: nat where "crypto_stream_KEYBYTES \<equiv> 32"
abbreviation (input) crypto_stream_NONCEBYTES :: nat where "crypto_stream_NONCEBYTES \<equiv> 24"
abbreviation (input) crypto_auth_BYTES :: nat where "crypto_auth_BYTES \<equiv> 32"
abbreviation (input) crypto_auth_KEYBYTES :: nat where "crypto_auth_KEYBYTES \<equiv> 32"
abbreviation (input) crypto_onetimeauth_BYTES :: nat where "crypto_onetimeauth_BYTES \<equiv> 16"
abbreviation (input) crypto_onetimeauth_KEYBYTES :: nat where "crypto_onetimeauth_KEYBYTES \<equiv> 32"


section \<open>The handlers\<close>

type_synonym handler = "sodium \<Rightarrow> eterm list \<Rightarrow> world \<Rightarrow> nif_ret \<times> world"

text \<open>
  Each handler is the C function of the same name: \<open>argc\<close> is the length of \<open>argv\<close>,
  the checks come in the order of the source, and every \<^verbatim>\<open>return\<close> is a branch.
\<close>

subsection \<open>Low-level functions\<close>

definition enif_crypto_hash :: handler where
  "enif_crypto_hash S argv w =
     (if length argv \<noteq> 1 then (Badarg, w) else
      case enif_inspect_iolist_as_binary (argv ! 0) of None \<Rightarrow> (Badarg, w)
      | Some input \<Rightarrow>
          let (ok, w1) = enif_alloc_binary crypto_hash_BYTES w in
          if \<not> ok then (nacl_error_tuple ''alloc_failed'', w1) else
          let result = written crypto_hash_BYTES (snd (crypto_hash S input)) in
          (Term (enif_make_binary result), executed ''crypto_hash'' w1))"

definition enif_crypto_verify_16 :: handler where
  "enif_crypto_verify_16 S argv w =
     (if length argv \<noteq> 2 then (Badarg, w) else
      case enif_inspect_binary (argv ! 0) of None \<Rightarrow> (Badarg, w)
      | Some x \<Rightarrow>
      case enif_inspect_binary (argv ! 1) of None \<Rightarrow> (Badarg, w)
      | Some y \<Rightarrow>
          if length x \<noteq> 16 \<or> length y \<noteq> 16 then (Badarg, w) else
          if 0 = crypto_verify_16 S x y
          then (Term (enif_make_atom ''true''), executed ''crypto_verify_16'' w)
          else (Term (enif_make_atom ''false''), executed ''crypto_verify_16'' w))"

definition enif_crypto_verify_32 :: handler where
  "enif_crypto_verify_32 S argv w =
     (if length argv \<noteq> 2 then (Badarg, w) else
      case enif_inspect_binary (argv ! 0) of None \<Rightarrow> (Badarg, w)
      | Some x \<Rightarrow>
      case enif_inspect_binary (argv ! 1) of None \<Rightarrow> (Badarg, w)
      | Some y \<Rightarrow>
          if length x \<noteq> 32 \<or> length y \<noteq> 32 then (Badarg, w) else
          if 0 = crypto_verify_32 S x y
          then (Term (enif_make_atom ''true''), executed ''crypto_verify_32'' w)
          else (Term (enif_make_atom ''false''), executed ''crypto_verify_32'' w))"

subsection \<open>Public-key cryptography\<close>

definition enif_crypto_box_keypair :: handler where
  "enif_crypto_box_keypair S argv w =
     (if length argv \<noteq> 0 then (Badarg, w) else
      let (ok1, w1) = enif_alloc_binary crypto_box_PUBLICKEYBYTES w in
      if \<not> ok1 then (nacl_error_tuple ''alloc_failed'', w1) else
      let (ok2, w2) = enif_alloc_binary crypto_box_SECRETKEYBYTES w1 in
      if \<not> ok2 then (nacl_error_tuple ''alloc_failed'', w2) else
      let (pk_out, sk_out) = crypto_box_keypair S (rng_state w2);
          pk = written crypto_box_PUBLICKEYBYTES pk_out;
          sk = written crypto_box_SECRETKEYBYTES sk_out
      in (Term (enif_make_tuple2 (enif_make_binary pk) (enif_make_binary sk)),
          executed ''crypto_box_keypair'' (w2\<lparr>rng_state := Suc (rng_state w2)\<rparr>)))"

definition enif_crypto_box :: handler where
  "enif_crypto_box S argv w =
     (if length argv \<noteq> 4 then (Badarg, w) else
      case enif_inspect_iolist_as_binary (argv ! 0) of None \<Rightarrow> (Badarg, w)
      | Some padded_msg \<Rightarrow>
      case enif_inspect_binary (argv ! 1) of None \<Rightarrow> (Badarg, w)
      | Some nonce \<Rightarrow>
      case enif_inspect_binary (argv ! 2) of None \<Rightarrow> (Badarg, w)
      | Some pk \<Rightarrow>
      case enif_inspect_binary (argv ! 3) of None \<Rightarrow> (Badarg, w)
      | Some sk \<Rightarrow>
          if length nonce \<noteq> crypto_box_NONCEBYTES \<or>
             length pk \<noteq> crypto_box_PUBLICKEYBYTES \<or>
             length sk \<noteq> crypto_box_SECRETKEYBYTES \<or>
             length padded_msg < crypto_box_ZEROBYTES
          then (Badarg, w) else
          let (ok, w1) = enif_alloc_binary (length padded_msg) w in
          if \<not> ok then (nacl_error_tuple ''alloc_failed'', w1) else
          let result = written (length padded_msg) (snd (crypto_box S padded_msg nonce pk sk)) in
          (enif_make_sub_binary result crypto_box_BOXZEROBYTES
             (size_t_sub (length padded_msg) crypto_box_BOXZEROBYTES),
           executed ''crypto_box'' w1))"

definition enif_crypto_box_open :: handler where
  "enif_crypto_box_open S argv w =
     (if length argv \<noteq> 4 then (Badarg, w) else
      case enif_inspect_iolist_as_binary (argv ! 0) of None \<Rightarrow> (Badarg, w)
      | Some padded_ciphertext \<Rightarrow>
      case enif_inspect_binary (argv ! 1) of None \<Rightarrow> (Badarg, w)
      | Some nonce \<Rightarrow>
      case enif_inspect_binary (argv ! 2) of None \<Rightarrow> (Badarg, w)
      | Some pk \<Rightarrow>
      case enif_inspect_binary (argv ! 3) of None \<Rightarrow> (Badarg, w)
      | Some sk \<Rightarrow>
          if length nonce \<noteq> crypto_box_NONCEBYTES \<or>
             length pk \<noteq> crypto_box_PUBLICKEYBYTES \<or>
             length sk \<noteq> crypto_box_SECRETKEYBYTES \<or>
             length padded_ciphertext < crypto_box_BOXZEROBYTES
          then (Badarg, w) else
          let (ok, w1) = enif_alloc_binary (length padded_ciphertext) w in
          if \<not> ok then (nacl_error_tuple ''alloc_failed'', w1) else
          let (rc, out) = crypto_box_open S padded_ciphertext nonce pk sk;
              result = written (length padded_ciphertext) out;
              w2 = executed ''crypto_box_open'' w1 in
          if rc \<noteq> 0 then (nacl_error_tuple ''failed_verification'', enif_release_binary w2) else
          (enif_make_sub_binary result crypto_box_ZEROBYTES
             (size_t_sub (length padded_ciphertext) crypto_box_ZEROBYTES),
           w2))"

subsection \<open>Signing\<close>

definition enif_crypto_sign_keypair :: handler where
  "enif_crypto_sign_keypair S argv w =
     (if length argv \<noteq> 0 then (Badarg, w) else
      let (ok1, w1) = enif_alloc_binary crypto_sign_PUBLICKEYBYTES w in
      if \<not> ok1 then (nacl_error_tuple ''alloc_failed'', w1) else
      let (ok2, w2) = enif_alloc_binary crypto_sign_SECRETKEYBYTES w1 in
      if \<not> ok2 then (nacl_error_tuple ''alloc_failed'', w2) else
      let (pk_out, sk_out) = crypto_sign_keypair S (rng_state w2);
          pk = written crypto_sign_PUBLICKEYBYTES pk_out;
          sk = written crypto_sign_SECRETKEYBYTES sk_out
      in (Term (enif_make_tuple2 (enif_make_binary pk) (enif_make_binary sk)),
          executed ''crypto_sign_keypair'' (w2\<lparr>rng_state := Suc (rng_state w2)\<rparr>)))"

definition enif_crypto_sign :: handler where
  "enif_crypto_sign S argv w =
     (if length argv \<noteq> 2 then (Badarg, w) else
      case enif_inspect_iolist_as_binary (argv ! 0) of None \<Rightarrow> (Badarg, w)
      | Some m \<Rightarrow>
      case enif_inspect_binary (argv ! 1) of None \<Rightarrow> (Badarg, w)
      | Some sk \<Rightarrow>
          if length sk \<noteq> crypto_sign_SECRETKEYBYTES then (Badarg, w) else
          let (ok, w1) = enif_alloc_binary (length m + crypto_sign_BYTES) w in
          if \<not> ok then (nacl_error_tuple ''alloc_failed'', w1) else
          let (rc, out, smlen) = crypto_sign S m sk;
              sm = written (length m + crypto_sign_BYTES) out in
          (enif_make_sub_binary sm 0 smlen, executed ''crypto_sign'' w1))"

definition enif_crypto_sign_open :: handler where
  "enif_crypto_sign_open S argv w =
     (if length argv \<noteq> 2 then (Badarg, w) else
      case enif_inspect_iolist_as_binary (argv ! 0) of None \<Rightarrow> (Badarg, w)
      | Some sm \<Rightarrow>
      case enif_inspect_binary (argv ! 1) of None \<Rightarrow> (Badarg, w)
      | Some pk \<Rightarrow>
          if length pk \<noteq> crypto_sign_PUBLICKEYBYTES then (Badarg, w) else
          let (ok, w1) = enif_alloc_binary (length sm) w in
          if \<not> ok then (nacl_error_tuple ''alloc_failed'', w1) else
          let (rc, out, mlen) = crypto_sign_open S sm pk;
              m = written (length sm) out;
              w2 = executed ''crypto_sign_open'' w1 in
          if 0 = rc then (enif_make_sub_binary m 0 mlen, w2)
          else (nacl_error_tuple ''failed_verification'', enif_release_binary w2))"


subsection \<open>Secret-key cryptography\<close>

definition enif_crypto_secretbox :: handler where
  "enif_crypto_secretbox S argv w =
     (if length argv \<noteq> 3 then (Badarg, w) else
      case enif_inspect_iolist_as_binary (argv ! 0) of None \<Rightarrow> (Badarg, w)
      | Some padded_msg \<Rightarrow>
      case enif_inspect_binary (argv ! 1) of None \<Rightarrow> (Badarg, w)
      | Some nonce \<Rightarrow>
      case enif_inspect_binary (argv ! 2) of None \<Rightarrow> (Badarg, w)
      | Some key \<Rightarrow>
          if length key \<noteq> crypto_secretbox_KEYBYTES \<or>
             length nonce \<noteq> crypto_secretbox_NONCEBYTES \<or>
             length padded_msg < crypto_secretbox_ZEROBYTES
          then (Badarg, w) else
          let (ok, w1) = enif_alloc_binary (length padded_msg) w in
          if \<not> ok then (nacl_error_tuple ''alloc_failed'', w1) else
          let padded_ciphertext =
                written (length padded_msg) (snd (crypto_secretbox S padded_msg nonce key)) in
          (enif_make_sub_binary padded_ciphertext crypto_secretbox_BOXZEROBYTES
             (size_t_sub (length padded_msg) crypto_secretbox_BOXZEROBYTES),
           executed ''crypto_secretbox'' w1))"

definition enif_crypto_secretbox_open :: handler where
  "enif_crypto_secretbox_open S argv w =
     (if length argv \<noteq> 3 then (Badarg, w) else
      case enif_inspect_iolist_as_binary (argv ! 0) of None \<Rightarrow> (Badarg, w)
      | Some padded_ciphertext \<Rightarrow>
      case enif_inspect_binary (argv ! 1) of None \<Rightarrow> (Badarg, w)
      | Some nonce \<Rightarrow>
      case enif_inspect_binary (argv ! 2) of None \<Rightarrow> (Badarg, w)
      | Some key \<Rightarrow>
          if length key \<noteq> crypto_secretbox_KEYBYTES \<or>
             length nonce \<noteq> crypto_secretbox_NONCEBYTES \<or>
             length padded_ciphertext < crypto_secretbox_BOXZEROBYTES
          then (Badarg, w) else
          let (ok, w1) = enif_alloc_binary (length padded_ciphertext) w in
          if \<not> ok then (nacl_error_tuple ''alloc_failed'', w1) else
          let (rc, out) = crypto_secretbox_open S padded_ciphertext nonce key;
              padded_msg = written (length padded_ciphertext) out;
              w2 = executed ''crypto_secretbox_open'' w1 in
          if rc \<noteq> 0 then (nacl_error_tuple ''failed_verification'', enif_release_binary w2) else
          (enif_make_sub_binary padded_msg crypto_secretbox_ZEROBYTES
             (size_t_sub (length padded_ciphertext) crypto_secretbox_ZEROBYTES),
           w2))"

definition enif_crypto_stream :: handler where
  "enif_crypto_stream S argv w =
     (if length argv \<noteq> 3 then (Badarg, w) else
      case enif_get_uint64 (argv ! 0) of None \<Rightarrow> (Badarg, w)
      | Some clen \<Rightarrow>
      case enif_inspect_binary (argv ! 1) of None \<Rightarrow> (Badarg, w)
      | Some n \<Rightarrow>
      case enif_inspect_binary (argv ! 2) of None \<Rightarrow> (Badarg, w)
      | Some k \<Rightarrow>
          if length k \<noteq> crypto_stream_KEYBYTES \<or> length n \<noteq> crypto_stream_NONCEBYTES
          then (Badarg, w) else
          let (ok, w1) = enif_alloc_binary clen w in
          if \<not> ok then (nacl_error_tuple ''alloc_failed'', w1) else
          let c = written clen (snd (crypto_stream S clen n k)) in
          (Term (enif_make_binary c), executed ''crypto_stream'' w1))"

definition enif_crypto_stream_xor :: handler where
  "enif_crypto_stream_xor S argv w =
     (if length argv \<noteq> 3 then (Badarg, w) else
      case enif_inspect_iolist_as_binary (argv ! 0) of None \<Rightarrow> (Badarg, w)
      | Some m \<Rightarrow>
      case enif_inspect_binary (argv ! 1) of None \<Rightarrow> (Badarg, w)
      | Some n \<Rightarrow>
      case enif_inspect_binary (argv ! 2) of None \<Rightarrow> (Badarg, w)
      | Some k \<Rightarrow>
          if length k \<noteq> crypto_stream_KEYBYTES \<or> length n \<noteq> crypto_stream_NONCEBYTES
          then (Badarg, w) else
          let (ok, w1) = enif_alloc_binary (length m) w in
          if \<not> ok then (nacl_error_tuple ''alloc_failed'', w1) else
          let c = written (length m) (snd (crypto_stream_xor S m n k)) in
          (Term (enif_make_binary c), executed ''crypto_stream_xor'' w1))"

definition enif_crypto_auth :: handler where
  "enif_crypto_auth S argv w =
     (if length argv \<noteq> 2 then (Badarg, w) else
      case enif_inspect_iolist_as_binary (argv ! 0) of None \<Rightarrow> (Badarg, w)
      | Some m \<Rightarrow>
      case enif_inspect_binary (argv ! 1) of None \<Rightarrow> (Badarg, w)
      | Some k \<Rightarrow>
          if length k \<noteq> crypto_auth_KEYBYTES then (Badarg, w) else
          let (ok, w1) = enif_alloc_binary crypto_auth_BYTES w in
          if \<not> ok then (nacl_error_tuple ''alloc_failed'', w1) else
          let a = written crypto_auth_BYTES (snd (crypto_auth S m k)) in
          (Term (enif_make_binary a), executed ''crypto_auth'' w1))"

definition enif_crypto_auth_verify :: handler where
  "enif_crypto_auth_verify S argv w =
     (if length argv \<noteq> 3 then (Badarg, w) else
      case enif_inspect_binary (argv ! 0) of None \<Rightarrow> (Badarg, w)
      | Some a \<Rightarrow>
      case enif_inspect_iolist_as_binary (argv ! 1) of None \<Rightarrow> (Badarg, w)
      | Some m \<Rightarrow>
      case enif_inspect_binary (argv ! 2) of None \<Rightarrow> (Badarg, w)
      | Some k \<Rightarrow>
          if length k \<noteq> crypto_auth_KEYBYTES \<or> length a \<noteq> crypto_auth_BYTES
          then (Badarg, w) else
          if 0 = crypto_auth_verify S a m k
          then (Term (enif_make_atom ''true''), executed ''crypto_auth_verify'' w)
          else (Term (enif_make_atom ''false''), executed ''crypto_auth_verify'' w))"

definition enif_crypto_onetimeauth :: handler where
  "enif_crypto_onetimeauth S argv w =
     (if length argv \<noteq> 2 then (Badarg, w) else
      case enif_inspect_iolist_as_binary (argv ! 0) of None \<Rightarrow> (Badarg, w)
      | Some m \<Rightarrow>
      case enif_inspect_binary (argv ! 1) of None \<Rightarrow> (Badarg, w)
      | Some k \<Rightarrow>
          if length k \<noteq> crypto_onetimeauth_KEYBYTES then (Badarg, w) else
          let (ok, w1) = enif_alloc_binary crypto_onetimeauth_BYTES w in
          if \<not> ok then (nacl_error_tuple ''alloc_failed'', w1) else
          let a = written crypto_onetimeauth_BYTES (snd (crypto_onetimeauth S m k)) in
          (Term (enif_make_binary a), executed ''crypto_onetimeauth'' w1))"

definition enif_crypto_onetimeauth_verify :: handler where
  "enif_crypto_onetimeauth_verify S argv w =
     (if length argv \<noteq> 3 then (Badarg, w) else
      case enif_inspect_binary (argv ! 0) of None \<Rightarrow> (Badarg, w)
      | Some a \<Rightarrow>
      case enif_inspect_iolist_as_binary (argv ! 1) of None \<Rightarrow> (Badarg, w)
      | Some m \<Rightarrow>
      case enif_inspect_binary (argv ! 2) of None \<Rightarrow> (Badarg, w)
      | Some k \<Rightarrow>
          if length k \<noteq> crypto_onetimeauth_KEYBYTES \<or> length a \<noteq> crypto_onetimeauth_BYTES
          then (Badarg, w) else
          if 0 = crypto_onetimeauth_verify S a m k
          then (Term (enif_make_atom ''true''), executed ''crypto_onetimeauth_verify'' w)
          else (Term (enif_make_atom ''false''), executed ''crypto_onetimeauth_verify'' w))"

subsection \<open>The size getters\<close>

text \<open>
  The seventeen functions \<^verbatim>\<open>enif_crypto_*_*BYTES\<close> have one body: they return their
  macro as an integer and look at neither \<open>argc\<close> nor \<open>argv\<close>.
\<close>

datatype size_macro =
    box_NONCEBYTES | box_ZEROBYTES | box_BOXZEROBYTES | box_PUBLICKEYBYTES
  | box_SECRETKEYBYTES | sign_PUBLICKEYBYTES | sign_SECRETKEYBYTES
  | secretbox_NONCEBYTES | secretbox_KEYBYTES | secretbox_ZEROBYTES
  | secretbox_BOXZEROBYTES | stream_KEYBYTES | stream_NONCEBYTES
  | auth_BYTES | auth_KEYBYTES | onetimeauth_BYTES | onetimeauth_KEYBYTES

fun macro_value :: "size_macro \<Rightarrow> nat" where
  "macro_value box_NONCEBYTES = crypto_box_NONCEBYTES"
| "macro_value box_ZEROBYTES = crypto_box_ZEROBYTES"
| "macro_value box_BOXZEROBYTES = crypto_box_BOXZEROBYTES"
| "macro_value box_PUBLICKEYBYTES = crypto_box_PUBLICKEYBYTES"
| "macro_value box_SECRETKEYBYTES = crypto_box_SECRETKEYBYTES"
| "macro_value sign_PUBLICKEYBYTES = crypto_sign_PUBLICKEYBYTES"
| "macro_value sign_SECRETKEYBYTES = crypto_sign_SECRETKEYBYTES"
| "macro_value secretbox_NONCEBYTES = crypto_secretbox_NONCEBYTES"
| "macro_value secretbox_KEYBYTES = crypto_secretbox_KEYBYTES"
| "macro_value secretbox_ZEROBYTES = crypto_secretbox_ZEROBYTES"
| "macro_value secretbox_BOXZEROBYTES = crypto_secretbox_BOXZEROBYTES"
| "macro_value stream_KEYBYTES = crypto_stream_KEYBYTES"
| "macro_value stream_NONCEBYTES = crypto_stream_NONCEBYTES"
| "macro_value auth_BYTES = crypto_auth_BYTES"
| "macro_value auth_KEYBYTES = crypto_auth_KEYBYTES"
| "macro_value onetimeauth_BYTES = crypto_onetimeauth_BYTES"
| "macro_value onetimeauth_KEYBYTES = crypto_onetimeauth_KEYBYTES"

definition enif_crypto_size_getter :: "size_macro \<Rightarrow> handler" where
  "enif_crypto_size_getter m S argv w = (enif_make_int64 (macro_value m), w)"


section \<open>The table of NIFs\<close>

text \<open>A function pointer of the table names one of the C functions above.\<close>

datatype nif_fn =
    Size_getter size_macro
  | Enif_crypto_hash | Enif_crypto_verify_16 | Enif_crypto_verify_32
  | Enif_crypto_box_keypair | Enif_crypto_box | Enif_crypto_box_open
  | Enif_crypto_sign_keypair | Enif_crypto_sign | Enif_crypto_sign_open
  | Enif_crypto_secretbox | Enif_crypto_secretbox_open
  | Enif_crypto_stream | Enif_crypto_stream_xor
  | Enif_crypto_auth | Enif_crypto_auth_verify
  | Enif_crypto_onetimeauth | Enif_crypto_onetimeauth_verify

fun nif_apply :: "nif_fn \<Rightarrow> handler" where
  "nif_apply (Size_getter m) = enif_crypto_size_getter m"
| "nif_apply Enif_crypto_hash = enif_crypto_hash"
| "nif_apply Enif_crypto_verify_16 = enif_crypto_verify_16"
| "nif_apply Enif_crypto_verify_32 = enif_crypto_verify_32"
| "nif_apply Enif_crypto_box_keypair = enif_crypto_box_keypair"
| "nif_apply Enif_crypto_box = enif_crypto_box"
| "nif_apply Enif_crypto_box_open = enif_crypto_box_open"
| "nif_apply Enif_crypto_sign_keypair = enif_crypto_sign_keypair"
| "nif_apply Enif_crypto_sign = enif_crypto_sign"
| "nif_apply Enif_crypto_sign_open = enif_crypto_sign_open"
| "nif_apply Enif_crypto_secretbox = enif_crypto_secretbox"
| "nif_apply Enif_crypto_secretbox_open = enif_crypto_secretbox_open"
| "nif_apply Enif_crypto_stream = enif_crypto_stream"
| "nif_apply Enif_crypto_stream_xor = enif_crypto_stream_xor"
| "nif_apply Enif_crypto_auth = enif_crypto_auth"
| "nif_apply Enif_crypto_auth_verify = enif_crypto_auth_verify"
| "nif_apply Enif_crypto_onetimeauth = enif_crypto_onetimeauth"
| "nif_apply Enif_crypto_onetimeauth_verify = enif_crypto_onetimeauth_verify"

text \<open>
  \<^verbatim>\<open>ErlNifFunc\<close> of \<^verbatim>\<open>erl_nif.h\<close>. An initialiser of three fields leaves \<open>flags\<close> zero.
\<close>

record ErlNifFunc =
  name :: string
  arity :: nat
  fptr :: nif_fn
  flags :: nat

abbreviation (input) ERL_NIF_DIRTY_JOB_CPU_BOUND :: nat where "ERL_NIF_DIRTY_JOB_CPU_BOUND \<equiv> 1"

definition nif3 :: "string \<Rightarrow> nat \<Rightarrow> nif_fn \<Rightarrow> ErlNifFunc" where
  "nif3 n a f = \<lparr>name = n, arity = a, fptr = f, flags = 0\<rparr>"

definition nif4 :: "string \<Rightarrow> nat \<Rightarrow> nif_fn \<Rightarrow> nat \<Rightarrow> ErlNifFunc" where
  "nif4 n a f fl = \<lparr>name = n, arity = a, fptr = f, flags = fl\<rparr>"

definition nif_funcs :: "ErlNifFunc list" where
  "nif_funcs = [
     nif3 ''crypto_box_NONCEBYTES'' 0 (Size_getter box_NONCEBYTES),
     nif3 ''crypto_box_ZEROBYTES'' 0 (Size_getter box_ZEROBYTES),
     nif3 ''crypto_box_BOXZEROBYTES'' 0 (Size_getter box_BOXZEROBYTES),
     nif3 ''crypto_box_PUBLICKEYBYTES'' 0 (Size_getter box_PUBLICKEYBYTES),
     nif3 ''crypto_box_SECRETKEYBYTES'' 0 (Size_getter box_SECRETKEYBYTES),
     nif3 ''crypto_box_keypair'' 0 Enif_crypto_box_keypair,
     nif3 ''crypto_box_b'' 4 Enif_crypto_box,
     nif4 ''crypto_box'' 4 Enif_crypto_box ERL_NIF_DIRTY_JOB_CPU_BOUND,
     nif3 ''crypto_box_open_b'' 4 Enif_crypto_box_open,
     nif4 ''crypto_box_open'' 4 Enif_crypto_box_open ERL_NIF_DIRTY_JOB_CPU_BOUND,

     nif3 ''crypto_sign_PUBLICKEYBYTES'' 0 (Size_getter sign_PUBLICKEYBYTES),
     nif3 ''crypto_sign_SECRETKEYBYTES'' 0 (Size_getter sign_SECRETKEYBYTES),
     nif3 ''crypto_sign_keypair'' 0 Enif_crypto_sign_keypair,
     nif3 ''crypto_sign_b'' 2 Enif_crypto_sign,
     nif4 ''crypto_sign'' 2 Enif_crypto_sign ERL_NIF_DIRTY_JOB_CPU_BOUND,
     nif3 ''crypto_sign_open_b'' 2 Enif_crypto_sign_open,
     nif4 ''crypto_sign_open'' 2 Enif_crypto_sign_open ERL_NIF_DIRTY_JOB_CPU_BOUND,

     nif3 ''crypto_secretbox_NONCEBYTES'' 0 (Size_getter secretbox_NONCEBYTES),
     nif3 ''crypto_secretbox_ZEROBYTES'' 0 (Size_getter secretbox_ZEROBYTES),
     nif3 ''crypto_secretbox_BOXZEROBYTES'' 0 (Size_getter secretbox_BOXZEROBYTES),
     nif3 ''crypto_secretbox_KEYBYTES'' 0 (Size_getter secretbox_KEYBYTES),
     nif3 ''crypto_secretbox_b'' 3 Enif_crypto_secretbox,
     nif4 ''crypto_secretbox'' 3 Enif_crypto_secretbox ERL_NIF_DIRTY_JOB_CPU_BOUND,
     nif3 ''crypto_secretbox_open_b'' 3 Enif_crypto_secretbox_open,
     nif4 ''crypto_secretbox_open'' 3 Enif_crypto_secretbox_open ERL_NIF_DIRTY_JOB_CPU_BOUND,

     nif3 ''crypto_stream_KEYBYTES'' 0 (Size_getter stream_KEYBYTES),
     nif3 ''crypto_stream_NONCEBYTES'' 0 (Size_getter stream_NONCEBYTES),
     nif3 ''crypto_stream_b'' 3 Enif_crypto_stream,
     nif4 ''crypto_stream'' 3 Enif_crypto_stream ERL_NIF_DIRTY_JOB_CPU_BOUND,
     nif3 ''crypto_stream_xor_b'' 3 Enif_crypto_stream_xor,
     nif4 ''crypto_stream_xor'' 3 Enif_crypto_stream_xor ERL_NIF_DIRTY_JOB_CPU_BOUND,

     nif3 ''crypto_auth_BYTES'' 0 (Size_getter auth_BYTES),
     nif3 ''crypto_auth_KEYBYTES'' 0 (Size_getter auth_KEYBYTES),
     nif3 ''crypto_auth_b'' 2 Enif_crypto_auth,
     nif4 ''crypto_auth'' 2 Enif_crypto_auth ERL_NIF_DIRTY_JOB_CPU_BOUND,
     nif3 ''crypto_auth_verify_b'' 3 Enif_crypto_auth_verify,
     nif4 ''crypto_auth_verify'' 3 Enif_crypto_auth_verify ERL_NIF_DIRTY_JOB_CPU_BOUND,

     nif3 ''crypto_onetimeauth_BYTES'' 0 (Size_getter onetimeauth_BYTES),
     nif3 ''crypto_onetimeauth_KEYBYTES'' 0 (Size_getter onetimeauth_KEYBYTES),
     nif3 ''crypto_onetimeauth_b'' 2 Enif_crypto_onetimeauth,
     nif4 ''crypto_onetimeauth'' 2 Enif_crypto_onetimeauth ERL_NIF_DIRTY_JOB_CPU_BOUND,
     nif3 ''crypto_onetimeauth_verify_b'' 3 Enif_crypto_onetimeauth_verify,
     nif4 ''crypto_onetimeauth_verify'' 3 Enif_crypto_onetimeauth_verify ERL_NIF_DIRTY_JOB_CPU_BOUND,

     nif3 ''crypto_hash_b'' 1 Enif_crypto_hash,
     nif4 ''crypto_hash'' 1 Enif_crypto_hash ERL_NIF_DIRTY_JOB_CPU_BOUND,
     nif3 ''crypto_verify_16'' 2 Enif_crypto_verify_16,
     nif3 ''crypto_verify_32'' 2 Enif_crypto_verify_32
   ]"

subsection \<open>Calling a NIF\<close>

text \<open>
  The emulator finds the entry by name and number of arguments; a call that matches no
  entry never reaches C. An entry without flags runs on the scheduler thread of the
  calling process; one flagged \<^verbatim>\<open>ERL_NIF_DIRTY_JOB_CPU_BOUND\<close> runs on a dirty CPU
  scheduler.
\<close>

datatype scheduler = Normal_scheduler | Dirty_cpu_scheduler

definition scheduler_of :: "ErlNifFunc \<Rightarrow> scheduler" where
  "scheduler_of f =
     (if flags f = ERL_NIF_DIRTY_JOB_CPU_BOUND then Dirty_cpu_scheduler else Normal_scheduler)"

definition nif_lookup :: "string \<Rightarrow> nat \<Rightarrow> ErlNifFunc option" where
  "nif_lookup fname argc = find (\<lambda>f. name f = fname \<and> arity f = argc) nif_funcs"

definition erl_call :: "sodium \<Rightarrow> string \<Rightarrow> eterm list \<Rightarrow> world \<Rightarrow> (scheduler \<times> nif_ret \<times> world) option" where
  "erl_call S fname argv w =
     (case nif_lookup fname (length argv) of
        None \<Rightarrow> None
      | Some f \<Rightarrow> Some (scheduler_of f, nif_apply (fptr f) S argv w))"

section \<open>What the claims speak about\<close>

subsection \<open>The primitives with two entries\<close>

text \<open>The thirteen primitives that the table registers twice, by the name of the dirty entry.\<close>

definition crypto_primitives :: "string list" where
  "crypto_primitives =
     [''crypto_box'', ''crypto_box_open'', ''crypto_sign'', ''crypto_sign_open'',
      ''crypto_secretbox'', ''crypto_secretbox_open'', ''crypto_stream'', ''crypto_stream_xor'',
      ''crypto_auth'', ''crypto_auth_verify'', ''crypto_onetimeauth'',
      ''crypto_onetimeauth_verify'', ''crypto_hash'']"

definition entries_named :: "string \<Rightarrow> ErlNifFunc list" where
  "entries_named fname = filter (\<lambda>f. name f = fname) nif_funcs"

definition entries_of :: "nif_fn \<Rightarrow> ErlNifFunc list" where
  "entries_of h = filter (\<lambda>f. fptr f = h) nif_funcs"

definition names_of :: "nif_fn \<Rightarrow> string list" where
  "names_of h = map name (entries_of h)"

text \<open>
  A primitive is registered twice when the table holds one entry of its name, flagged for
  the dirty CPU scheduler, one entry of its name followed by \<open>_b\<close>, without flags, both for
  the same C function and the same number of arguments, and no other entry for that function.
\<close>

definition registered_twice :: "string \<Rightarrow> bool" where
  "registered_twice p =
     (case entries_named p of
        [f] \<Rightarrow>
          (case entries_named (p @ ''_b'') of
             [g] \<Rightarrow> flags f = ERL_NIF_DIRTY_JOB_CPU_BOUND \<and> flags g = 0 \<and>
                    arity g = arity f \<and> fptr g = fptr f \<and> entries_of (fptr f) = [g, f]
           | _ \<Rightarrow> False)
      | _ \<Rightarrow> False)"

subsection \<open>The cost model of the specification\<close>

text \<open>
  Sections 4.1 and 4.2 of the specification, in its words: the estimate is linear in the
  input length, and a call is inline exactly when its estimate is at most the threshold.
\<close>

datatype exec_path = Inline | Offload

definition spec_estimate :: "nat \<Rightarrow> nat \<Rightarrow> nat \<Rightarrow> nat" where
  "spec_estimate fixed_cost per_byte_cost input_length = fixed_cost + per_byte_cost * input_length"

definition spec_classify :: "nat \<Rightarrow> nat \<Rightarrow> exec_path" where
  "spec_classify breakoff_threshold cost_units =
     (if cost_units \<le> breakoff_threshold then Inline else Offload)"

text \<open>The path the code takes is the scheduler the emulator runs the entry on.\<close>

fun path_of :: "scheduler \<Rightarrow> exec_path" where
  "path_of Normal_scheduler = Inline"
| "path_of Dirty_cpu_scheduler = Offload"

subsection \<open>The argument constraints of each primitive\<close>

text \<open>
  The PrimitiveSpec of the specification: for each argument, whether it must be a flat
  binary, may be an iolist, or is a length, and the size it must have. The sizes are the
  ones of the guards in the handlers.
\<close>

datatype size_constraint = Exactly nat | At_least nat | Any_size

datatype arg_spec = Flat size_constraint | Iolist size_constraint | Uint64

fun meets :: "size_constraint \<Rightarrow> nat \<Rightarrow> bool" where
  "meets (Exactly n) k = (k = n)"
| "meets (At_least n) k = (n \<le> k)"
| "meets Any_size k = True"

fun arg_ok :: "arg_spec \<Rightarrow> eterm \<Rightarrow> bool" where
  "arg_ok (Flat c) t =
     (case enif_inspect_binary t of None \<Rightarrow> False | Some b \<Rightarrow> meets c (length b))"
| "arg_ok (Iolist c) t =
     (case enif_inspect_iolist_as_binary t of None \<Rightarrow> False | Some b \<Rightarrow> meets c (length b))"
| "arg_ok Uint64 t = (case enif_get_uint64 t of None \<Rightarrow> False | Some n \<Rightarrow> True)"

definition args_ok :: "arg_spec list \<Rightarrow> eterm list \<Rightarrow> bool" where
  "args_ok spec argv = list_all2 arg_ok spec argv"

text \<open>
  An argument violates its size constraint when it decodes to a buffer of the wrong size.
\<close>

fun arg_size_violation :: "arg_spec \<Rightarrow> eterm \<Rightarrow> bool" where
  "arg_size_violation (Flat c) t =
     (case enif_inspect_binary t of None \<Rightarrow> False | Some b \<Rightarrow> \<not> meets c (length b))"
| "arg_size_violation (Iolist c) t =
     (case enif_inspect_iolist_as_binary t of None \<Rightarrow> False | Some b \<Rightarrow> \<not> meets c (length b))"
| "arg_size_violation Uint64 t = False"

definition size_violation :: "arg_spec list \<Rightarrow> eterm list \<Rightarrow> bool" where
  "size_violation spec argv = list_ex (\<lambda>(s, t). arg_size_violation s t) (zip spec argv)"

definition arity_violation :: "arg_spec list \<Rightarrow> eterm list \<Rightarrow> bool" where
  "arity_violation spec argv = (length argv \<noteq> length spec)"

fun primitive_spec :: "nif_fn \<Rightarrow> arg_spec list option" where
  "primitive_spec (Size_getter m) = None"
| "primitive_spec Enif_crypto_hash = Some [Iolist Any_size]"
| "primitive_spec Enif_crypto_verify_16 = Some [Flat (Exactly 16), Flat (Exactly 16)]"
| "primitive_spec Enif_crypto_verify_32 = Some [Flat (Exactly 32), Flat (Exactly 32)]"
| "primitive_spec Enif_crypto_box_keypair = Some []"
| "primitive_spec Enif_crypto_box =
     Some [Iolist (At_least crypto_box_ZEROBYTES), Flat (Exactly crypto_box_NONCEBYTES),
           Flat (Exactly crypto_box_PUBLICKEYBYTES), Flat (Exactly crypto_box_SECRETKEYBYTES)]"
| "primitive_spec Enif_crypto_box_open =
     Some [Iolist (At_least crypto_box_BOXZEROBYTES), Flat (Exactly crypto_box_NONCEBYTES),
           Flat (Exactly crypto_box_PUBLICKEYBYTES), Flat (Exactly crypto_box_SECRETKEYBYTES)]"
| "primitive_spec Enif_crypto_sign_keypair = Some []"
| "primitive_spec Enif_crypto_sign =
     Some [Iolist Any_size, Flat (Exactly crypto_sign_SECRETKEYBYTES)]"
| "primitive_spec Enif_crypto_sign_open =
     Some [Iolist Any_size, Flat (Exactly crypto_sign_PUBLICKEYBYTES)]"
| "primitive_spec Enif_crypto_secretbox =
     Some [Iolist (At_least crypto_secretbox_ZEROBYTES),
           Flat (Exactly crypto_secretbox_NONCEBYTES), Flat (Exactly crypto_secretbox_KEYBYTES)]"
| "primitive_spec Enif_crypto_secretbox_open =
     Some [Iolist (At_least crypto_secretbox_BOXZEROBYTES),
           Flat (Exactly crypto_secretbox_NONCEBYTES), Flat (Exactly crypto_secretbox_KEYBYTES)]"
| "primitive_spec Enif_crypto_stream =
     Some [Uint64, Flat (Exactly crypto_stream_NONCEBYTES), Flat (Exactly crypto_stream_KEYBYTES)]"
| "primitive_spec Enif_crypto_stream_xor =
     Some [Iolist Any_size, Flat (Exactly crypto_stream_NONCEBYTES),
           Flat (Exactly crypto_stream_KEYBYTES)]"
| "primitive_spec Enif_crypto_auth = Some [Iolist Any_size, Flat (Exactly crypto_auth_KEYBYTES)]"
| "primitive_spec Enif_crypto_auth_verify =
     Some [Flat (Exactly crypto_auth_BYTES), Iolist Any_size, Flat (Exactly crypto_auth_KEYBYTES)]"
| "primitive_spec Enif_crypto_onetimeauth =
     Some [Iolist Any_size, Flat (Exactly crypto_onetimeauth_KEYBYTES)]"
| "primitive_spec Enif_crypto_onetimeauth_verify =
     Some [Flat (Exactly crypto_onetimeauth_BYTES), Iolist Any_size,
           Flat (Exactly crypto_onetimeauth_KEYBYTES)]"

subsection \<open>What a call added to the trace\<close>

definition new_events :: "world \<Rightarrow> world \<Rightarrow> event list" where
  "new_events w w' = drop (length (trace w)) (trace w')"

text \<open>Whether the allocator is going to grant the next request.\<close>

definition granted :: "world \<Rightarrow> bool" where
  "granted w = (case alloc_results w of [] \<Rightarrow> True | ok # rest \<Rightarrow> ok)"

subsection \<open>A stand-in for libsodium\<close>

text \<open>
  To run the handlers on concrete arguments the primitives need some value. The stand-in
  copies its input where libsodium would encrypt, refuses to open what is shorter than the
  padding or not under the all-zero key, and writes zeros elsewhere.
\<close>

definition zeros :: "nat \<Rightarrow> bytes" where
  "zeros n = replicate n 0"

definition stub_sodium :: sodium where
  "stub_sodium = \<lparr>
     crypto_hash = (\<lambda>m. (0, zeros 64)),
     crypto_verify_16 = (\<lambda>x y. if x = y then 0 else - 1),
     crypto_verify_32 = (\<lambda>x y. if x = y then 0 else - 1),
     crypto_box_keypair = (\<lambda>r. (zeros 32, zeros 32)),
     crypto_box = (\<lambda>m n pk sk. (0, m)),
     crypto_box_open = (\<lambda>c n pk sk. (if length c < 32 \<or> sk \<noteq> zeros 32 then - 1 else 0, c)),
     crypto_sign_keypair = (\<lambda>r. (zeros 32, zeros 64)),
     crypto_sign = (\<lambda>m sk. (0, zeros 64 @ m, length m + 64)),
     crypto_sign_open = (\<lambda>sm pk. if length sm < 64 \<or> take 64 sm \<noteq> zeros 64
                                  then (- 1, [], 0) else (0, drop 64 sm, length sm - 64)),
     crypto_secretbox = (\<lambda>m n k. (0, m)),
     crypto_secretbox_open = (\<lambda>c n k. (if length c < 32 \<or> k \<noteq> zeros 32 then - 1 else 0, c)),
     crypto_stream = (\<lambda>clen n k. (0, zeros clen)),
     crypto_stream_xor = (\<lambda>m n k. (0, m)),
     crypto_auth = (\<lambda>m k. (0, zeros 32)),
     crypto_auth_verify = (\<lambda>a m k. if a = zeros 32 then 0 else - 1),
     crypto_onetimeauth = (\<lambda>m k. (0, zeros 16)),
     crypto_onetimeauth_verify = (\<lambda>a m k. if a = zeros 16 then 0 else - 1)
   \<rparr>"

text \<open>A stand-in whose opening primitives accept everything, however short.\<close>

definition careless_sodium :: sodium where
  "careless_sodium = stub_sodium\<lparr>
     crypto_box_open := (\<lambda>c n pk sk. (0, c)),
     crypto_secretbox_open := (\<lambda>c n k. (0, c))\<rparr>"

definition idle_world :: world where
  "idle_world = \<lparr>alloc_results = [], rng_state = 0, trace = []\<rparr>"

definition starved_world :: world where
  "starved_world = \<lparr>alloc_results = [False], rng_state = 0, trace = []\<rparr>"

section \<open>Validation\<close>

lemma length1: "(length xs = Suc 0) = (\<exists>a. xs = [a])"
  by (cases xs) auto

lemma length2: "(length xs = 2) = (\<exists>a b. xs = [a, b])"
  by (auto simp: length_Suc_conv eval_nat_numeral)

lemma length3: "(length xs = 3) = (\<exists>a b c. xs = [a, b, c])"
  by (auto simp: length_Suc_conv eval_nat_numeral)

lemma length4: "(length xs = 4) = (\<exists>a b c d. xs = [a, b, c, d])"
  by (auto simp: length_Suc_conv eval_nat_numeral)

text \<open>
  Each handler returns badarg, and leaves the world as it found it, exactly when its
  arguments do not fit its constraints.
\<close>

lemma hash_validation:
  "(enif_crypto_hash S argv w = (Badarg, w)) = (\<not> args_ok [Iolist Any_size] argv)"
  "(fst (enif_crypto_hash S argv w) = Badarg) = (\<not> args_ok [Iolist Any_size] argv)"
proof -
  have "(enif_crypto_hash S argv w = (Badarg, w)) = (\<not> args_ok [Iolist Any_size] argv) \<and>
        (fst (enif_crypto_hash S argv w) = Badarg) = (\<not> args_ok [Iolist Any_size] argv)"
  proof (cases "length argv = 1")
    case False
    then show ?thesis
      by (auto simp: enif_crypto_hash_def args_ok_def dest: list_all2_lengthD)
  next
    case True
    then obtain a0 where argv: "argv = [a0]" by (auto simp: length1)
    show ?thesis unfolding argv
      by (auto simp: enif_crypto_hash_def args_ok_def Let_def nacl_error_tuple_def
            enif_make_sub_binary_def split: option.splits prod.splits)
  qed
  then show "(enif_crypto_hash S argv w = (Badarg, w)) = (\<not> args_ok [Iolist Any_size] argv)"
    and "(fst (enif_crypto_hash S argv w) = Badarg) = (\<not> args_ok [Iolist Any_size] argv)"
    by simp_all
qed

lemma verify_16_validation:
  "(enif_crypto_verify_16 S argv w = (Badarg, w)) = (\<not> args_ok [Flat (Exactly 16), Flat (Exactly 16)] argv)"
  "(fst (enif_crypto_verify_16 S argv w) = Badarg) = (\<not> args_ok [Flat (Exactly 16), Flat (Exactly 16)] argv)"
proof -
  have "(enif_crypto_verify_16 S argv w = (Badarg, w)) = (\<not> args_ok [Flat (Exactly 16), Flat (Exactly 16)] argv) \<and>
        (fst (enif_crypto_verify_16 S argv w) = Badarg) = (\<not> args_ok [Flat (Exactly 16), Flat (Exactly 16)] argv)"
  proof (cases "length argv = 2")
    case False
    then show ?thesis
      by (auto simp: enif_crypto_verify_16_def args_ok_def dest: list_all2_lengthD)
  next
    case True
    then obtain a0 a1 where argv: "argv = [a0, a1]" by (auto simp: length2)
    show ?thesis unfolding argv
      by (auto simp: enif_crypto_verify_16_def args_ok_def Let_def nacl_error_tuple_def
            enif_make_sub_binary_def split: option.splits prod.splits)
  qed
  then show "(enif_crypto_verify_16 S argv w = (Badarg, w)) = (\<not> args_ok [Flat (Exactly 16), Flat (Exactly 16)] argv)"
    and "(fst (enif_crypto_verify_16 S argv w) = Badarg) = (\<not> args_ok [Flat (Exactly 16), Flat (Exactly 16)] argv)"
    by simp_all
qed

lemma verify_32_validation:
  "(enif_crypto_verify_32 S argv w = (Badarg, w)) = (\<not> args_ok [Flat (Exactly 32), Flat (Exactly 32)] argv)"
  "(fst (enif_crypto_verify_32 S argv w) = Badarg) = (\<not> args_ok [Flat (Exactly 32), Flat (Exactly 32)] argv)"
proof -
  have "(enif_crypto_verify_32 S argv w = (Badarg, w)) = (\<not> args_ok [Flat (Exactly 32), Flat (Exactly 32)] argv) \<and>
        (fst (enif_crypto_verify_32 S argv w) = Badarg) = (\<not> args_ok [Flat (Exactly 32), Flat (Exactly 32)] argv)"
  proof (cases "length argv = 2")
    case False
    then show ?thesis
      by (auto simp: enif_crypto_verify_32_def args_ok_def dest: list_all2_lengthD)
  next
    case True
    then obtain a0 a1 where argv: "argv = [a0, a1]" by (auto simp: length2)
    show ?thesis unfolding argv
      by (auto simp: enif_crypto_verify_32_def args_ok_def Let_def nacl_error_tuple_def
            enif_make_sub_binary_def split: option.splits prod.splits)
  qed
  then show "(enif_crypto_verify_32 S argv w = (Badarg, w)) = (\<not> args_ok [Flat (Exactly 32), Flat (Exactly 32)] argv)"
    and "(fst (enif_crypto_verify_32 S argv w) = Badarg) = (\<not> args_ok [Flat (Exactly 32), Flat (Exactly 32)] argv)"
    by simp_all
qed

lemma box_keypair_validation:
  "(enif_crypto_box_keypair S argv w = (Badarg, w)) = (\<not> args_ok [] argv)"
  "(fst (enif_crypto_box_keypair S argv w) = Badarg) = (\<not> args_ok [] argv)"
proof -
  have "(enif_crypto_box_keypair S argv w = (Badarg, w)) = (\<not> args_ok [] argv) \<and>
        (fst (enif_crypto_box_keypair S argv w) = Badarg) = (\<not> args_ok [] argv)"
  proof (cases "length argv = 0")
    case False
    then show ?thesis
      by (auto simp: enif_crypto_box_keypair_def args_ok_def dest: list_all2_lengthD)
  next
    case True
    then have argv: "argv = []" by simp
    show ?thesis unfolding argv
      by (auto simp: enif_crypto_box_keypair_def args_ok_def Let_def nacl_error_tuple_def
            enif_make_sub_binary_def split: option.splits prod.splits)
  qed
  then show "(enif_crypto_box_keypair S argv w = (Badarg, w)) = (\<not> args_ok [] argv)"
    and "(fst (enif_crypto_box_keypair S argv w) = Badarg) = (\<not> args_ok [] argv)"
    by simp_all
qed

lemma box_validation:
  "(enif_crypto_box S argv w = (Badarg, w)) = (\<not> args_ok [Iolist (At_least crypto_box_ZEROBYTES), Flat (Exactly crypto_box_NONCEBYTES), Flat (Exactly crypto_box_PUBLICKEYBYTES), Flat (Exactly crypto_box_SECRETKEYBYTES)] argv)"
  "(fst (enif_crypto_box S argv w) = Badarg) = (\<not> args_ok [Iolist (At_least crypto_box_ZEROBYTES), Flat (Exactly crypto_box_NONCEBYTES), Flat (Exactly crypto_box_PUBLICKEYBYTES), Flat (Exactly crypto_box_SECRETKEYBYTES)] argv)"
proof -
  have "(enif_crypto_box S argv w = (Badarg, w)) = (\<not> args_ok [Iolist (At_least crypto_box_ZEROBYTES), Flat (Exactly crypto_box_NONCEBYTES), Flat (Exactly crypto_box_PUBLICKEYBYTES), Flat (Exactly crypto_box_SECRETKEYBYTES)] argv) \<and>
        (fst (enif_crypto_box S argv w) = Badarg) = (\<not> args_ok [Iolist (At_least crypto_box_ZEROBYTES), Flat (Exactly crypto_box_NONCEBYTES), Flat (Exactly crypto_box_PUBLICKEYBYTES), Flat (Exactly crypto_box_SECRETKEYBYTES)] argv)"
  proof (cases "length argv = 4")
    case False
    then show ?thesis
      by (auto simp: enif_crypto_box_def args_ok_def dest: list_all2_lengthD)
  next
    case True
    then obtain a0 a1 a2 a3 where argv: "argv = [a0, a1, a2, a3]" by (auto simp: length4)
    show ?thesis unfolding argv
      by (auto simp: enif_crypto_box_def args_ok_def Let_def nacl_error_tuple_def
            enif_make_sub_binary_def split: option.splits prod.splits)
  qed
  then show "(enif_crypto_box S argv w = (Badarg, w)) = (\<not> args_ok [Iolist (At_least crypto_box_ZEROBYTES), Flat (Exactly crypto_box_NONCEBYTES), Flat (Exactly crypto_box_PUBLICKEYBYTES), Flat (Exactly crypto_box_SECRETKEYBYTES)] argv)"
    and "(fst (enif_crypto_box S argv w) = Badarg) = (\<not> args_ok [Iolist (At_least crypto_box_ZEROBYTES), Flat (Exactly crypto_box_NONCEBYTES), Flat (Exactly crypto_box_PUBLICKEYBYTES), Flat (Exactly crypto_box_SECRETKEYBYTES)] argv)"
    by simp_all
qed

lemma box_open_validation:
  "(enif_crypto_box_open S argv w = (Badarg, w)) = (\<not> args_ok [Iolist (At_least crypto_box_BOXZEROBYTES), Flat (Exactly crypto_box_NONCEBYTES), Flat (Exactly crypto_box_PUBLICKEYBYTES), Flat (Exactly crypto_box_SECRETKEYBYTES)] argv)"
  "(fst (enif_crypto_box_open S argv w) = Badarg) = (\<not> args_ok [Iolist (At_least crypto_box_BOXZEROBYTES), Flat (Exactly crypto_box_NONCEBYTES), Flat (Exactly crypto_box_PUBLICKEYBYTES), Flat (Exactly crypto_box_SECRETKEYBYTES)] argv)"
proof -
  have "(enif_crypto_box_open S argv w = (Badarg, w)) = (\<not> args_ok [Iolist (At_least crypto_box_BOXZEROBYTES), Flat (Exactly crypto_box_NONCEBYTES), Flat (Exactly crypto_box_PUBLICKEYBYTES), Flat (Exactly crypto_box_SECRETKEYBYTES)] argv) \<and>
        (fst (enif_crypto_box_open S argv w) = Badarg) = (\<not> args_ok [Iolist (At_least crypto_box_BOXZEROBYTES), Flat (Exactly crypto_box_NONCEBYTES), Flat (Exactly crypto_box_PUBLICKEYBYTES), Flat (Exactly crypto_box_SECRETKEYBYTES)] argv)"
  proof (cases "length argv = 4")
    case False
    then show ?thesis
      by (auto simp: enif_crypto_box_open_def args_ok_def dest: list_all2_lengthD)
  next
    case True
    then obtain a0 a1 a2 a3 where argv: "argv = [a0, a1, a2, a3]" by (auto simp: length4)
    show ?thesis unfolding argv
      by (auto simp: enif_crypto_box_open_def args_ok_def Let_def nacl_error_tuple_def
            enif_make_sub_binary_def split: option.splits prod.splits)
  qed
  then show "(enif_crypto_box_open S argv w = (Badarg, w)) = (\<not> args_ok [Iolist (At_least crypto_box_BOXZEROBYTES), Flat (Exactly crypto_box_NONCEBYTES), Flat (Exactly crypto_box_PUBLICKEYBYTES), Flat (Exactly crypto_box_SECRETKEYBYTES)] argv)"
    and "(fst (enif_crypto_box_open S argv w) = Badarg) = (\<not> args_ok [Iolist (At_least crypto_box_BOXZEROBYTES), Flat (Exactly crypto_box_NONCEBYTES), Flat (Exactly crypto_box_PUBLICKEYBYTES), Flat (Exactly crypto_box_SECRETKEYBYTES)] argv)"
    by simp_all
qed

lemma sign_keypair_validation:
  "(enif_crypto_sign_keypair S argv w = (Badarg, w)) = (\<not> args_ok [] argv)"
  "(fst (enif_crypto_sign_keypair S argv w) = Badarg) = (\<not> args_ok [] argv)"
proof -
  have "(enif_crypto_sign_keypair S argv w = (Badarg, w)) = (\<not> args_ok [] argv) \<and>
        (fst (enif_crypto_sign_keypair S argv w) = Badarg) = (\<not> args_ok [] argv)"
  proof (cases "length argv = 0")
    case False
    then show ?thesis
      by (auto simp: enif_crypto_sign_keypair_def args_ok_def dest: list_all2_lengthD)
  next
    case True
    then have argv: "argv = []" by simp
    show ?thesis unfolding argv
      by (auto simp: enif_crypto_sign_keypair_def args_ok_def Let_def nacl_error_tuple_def
            enif_make_sub_binary_def split: option.splits prod.splits)
  qed
  then show "(enif_crypto_sign_keypair S argv w = (Badarg, w)) = (\<not> args_ok [] argv)"
    and "(fst (enif_crypto_sign_keypair S argv w) = Badarg) = (\<not> args_ok [] argv)"
    by simp_all
qed

lemma sign_validation:
  "(enif_crypto_sign S argv w = (Badarg, w)) = (\<not> args_ok [Iolist Any_size, Flat (Exactly crypto_sign_SECRETKEYBYTES)] argv)"
  "(fst (enif_crypto_sign S argv w) = Badarg) = (\<not> args_ok [Iolist Any_size, Flat (Exactly crypto_sign_SECRETKEYBYTES)] argv)"
proof -
  have "(enif_crypto_sign S argv w = (Badarg, w)) = (\<not> args_ok [Iolist Any_size, Flat (Exactly crypto_sign_SECRETKEYBYTES)] argv) \<and>
        (fst (enif_crypto_sign S argv w) = Badarg) = (\<not> args_ok [Iolist Any_size, Flat (Exactly crypto_sign_SECRETKEYBYTES)] argv)"
  proof (cases "length argv = 2")
    case False
    then show ?thesis
      by (auto simp: enif_crypto_sign_def args_ok_def dest: list_all2_lengthD)
  next
    case True
    then obtain a0 a1 where argv: "argv = [a0, a1]" by (auto simp: length2)
    show ?thesis unfolding argv
      by (auto simp: enif_crypto_sign_def args_ok_def Let_def nacl_error_tuple_def
            enif_make_sub_binary_def split: option.splits prod.splits)
  qed
  then show "(enif_crypto_sign S argv w = (Badarg, w)) = (\<not> args_ok [Iolist Any_size, Flat (Exactly crypto_sign_SECRETKEYBYTES)] argv)"
    and "(fst (enif_crypto_sign S argv w) = Badarg) = (\<not> args_ok [Iolist Any_size, Flat (Exactly crypto_sign_SECRETKEYBYTES)] argv)"
    by simp_all
qed

lemma sign_open_validation:
  "(enif_crypto_sign_open S argv w = (Badarg, w)) = (\<not> args_ok [Iolist Any_size, Flat (Exactly crypto_sign_PUBLICKEYBYTES)] argv)"
  "(fst (enif_crypto_sign_open S argv w) = Badarg) = (\<not> args_ok [Iolist Any_size, Flat (Exactly crypto_sign_PUBLICKEYBYTES)] argv)"
proof -
  have "(enif_crypto_sign_open S argv w = (Badarg, w)) = (\<not> args_ok [Iolist Any_size, Flat (Exactly crypto_sign_PUBLICKEYBYTES)] argv) \<and>
        (fst (enif_crypto_sign_open S argv w) = Badarg) = (\<not> args_ok [Iolist Any_size, Flat (Exactly crypto_sign_PUBLICKEYBYTES)] argv)"
  proof (cases "length argv = 2")
    case False
    then show ?thesis
      by (auto simp: enif_crypto_sign_open_def args_ok_def dest: list_all2_lengthD)
  next
    case True
    then obtain a0 a1 where argv: "argv = [a0, a1]" by (auto simp: length2)
    show ?thesis unfolding argv
      by (auto simp: enif_crypto_sign_open_def args_ok_def Let_def nacl_error_tuple_def
            enif_make_sub_binary_def split: option.splits prod.splits)
  qed
  then show "(enif_crypto_sign_open S argv w = (Badarg, w)) = (\<not> args_ok [Iolist Any_size, Flat (Exactly crypto_sign_PUBLICKEYBYTES)] argv)"
    and "(fst (enif_crypto_sign_open S argv w) = Badarg) = (\<not> args_ok [Iolist Any_size, Flat (Exactly crypto_sign_PUBLICKEYBYTES)] argv)"
    by simp_all
qed

lemma secretbox_validation:
  "(enif_crypto_secretbox S argv w = (Badarg, w)) = (\<not> args_ok [Iolist (At_least crypto_secretbox_ZEROBYTES), Flat (Exactly crypto_secretbox_NONCEBYTES), Flat (Exactly crypto_secretbox_KEYBYTES)] argv)"
  "(fst (enif_crypto_secretbox S argv w) = Badarg) = (\<not> args_ok [Iolist (At_least crypto_secretbox_ZEROBYTES), Flat (Exactly crypto_secretbox_NONCEBYTES), Flat (Exactly crypto_secretbox_KEYBYTES)] argv)"
proof -
  have "(enif_crypto_secretbox S argv w = (Badarg, w)) = (\<not> args_ok [Iolist (At_least crypto_secretbox_ZEROBYTES), Flat (Exactly crypto_secretbox_NONCEBYTES), Flat (Exactly crypto_secretbox_KEYBYTES)] argv) \<and>
        (fst (enif_crypto_secretbox S argv w) = Badarg) = (\<not> args_ok [Iolist (At_least crypto_secretbox_ZEROBYTES), Flat (Exactly crypto_secretbox_NONCEBYTES), Flat (Exactly crypto_secretbox_KEYBYTES)] argv)"
  proof (cases "length argv = 3")
    case False
    then show ?thesis
      by (auto simp: enif_crypto_secretbox_def args_ok_def dest: list_all2_lengthD)
  next
    case True
    then obtain a0 a1 a2 where argv: "argv = [a0, a1, a2]" by (auto simp: length3)
    show ?thesis unfolding argv
      by (auto simp: enif_crypto_secretbox_def args_ok_def Let_def nacl_error_tuple_def
            enif_make_sub_binary_def split: option.splits prod.splits)
  qed
  then show "(enif_crypto_secretbox S argv w = (Badarg, w)) = (\<not> args_ok [Iolist (At_least crypto_secretbox_ZEROBYTES), Flat (Exactly crypto_secretbox_NONCEBYTES), Flat (Exactly crypto_secretbox_KEYBYTES)] argv)"
    and "(fst (enif_crypto_secretbox S argv w) = Badarg) = (\<not> args_ok [Iolist (At_least crypto_secretbox_ZEROBYTES), Flat (Exactly crypto_secretbox_NONCEBYTES), Flat (Exactly crypto_secretbox_KEYBYTES)] argv)"
    by simp_all
qed

lemma secretbox_open_validation:
  "(enif_crypto_secretbox_open S argv w = (Badarg, w)) = (\<not> args_ok [Iolist (At_least crypto_secretbox_BOXZEROBYTES), Flat (Exactly crypto_secretbox_NONCEBYTES), Flat (Exactly crypto_secretbox_KEYBYTES)] argv)"
  "(fst (enif_crypto_secretbox_open S argv w) = Badarg) = (\<not> args_ok [Iolist (At_least crypto_secretbox_BOXZEROBYTES), Flat (Exactly crypto_secretbox_NONCEBYTES), Flat (Exactly crypto_secretbox_KEYBYTES)] argv)"
proof -
  have "(enif_crypto_secretbox_open S argv w = (Badarg, w)) = (\<not> args_ok [Iolist (At_least crypto_secretbox_BOXZEROBYTES), Flat (Exactly crypto_secretbox_NONCEBYTES), Flat (Exactly crypto_secretbox_KEYBYTES)] argv) \<and>
        (fst (enif_crypto_secretbox_open S argv w) = Badarg) = (\<not> args_ok [Iolist (At_least crypto_secretbox_BOXZEROBYTES), Flat (Exactly crypto_secretbox_NONCEBYTES), Flat (Exactly crypto_secretbox_KEYBYTES)] argv)"
  proof (cases "length argv = 3")
    case False
    then show ?thesis
      by (auto simp: enif_crypto_secretbox_open_def args_ok_def dest: list_all2_lengthD)
  next
    case True
    then obtain a0 a1 a2 where argv: "argv = [a0, a1, a2]" by (auto simp: length3)
    show ?thesis unfolding argv
      by (auto simp: enif_crypto_secretbox_open_def args_ok_def Let_def nacl_error_tuple_def
            enif_make_sub_binary_def split: option.splits prod.splits)
  qed
  then show "(enif_crypto_secretbox_open S argv w = (Badarg, w)) = (\<not> args_ok [Iolist (At_least crypto_secretbox_BOXZEROBYTES), Flat (Exactly crypto_secretbox_NONCEBYTES), Flat (Exactly crypto_secretbox_KEYBYTES)] argv)"
    and "(fst (enif_crypto_secretbox_open S argv w) = Badarg) = (\<not> args_ok [Iolist (At_least crypto_secretbox_BOXZEROBYTES), Flat (Exactly crypto_secretbox_NONCEBYTES), Flat (Exactly crypto_secretbox_KEYBYTES)] argv)"
    by simp_all
qed

lemma stream_validation:
  "(enif_crypto_stream S argv w = (Badarg, w)) = (\<not> args_ok [Uint64, Flat (Exactly crypto_stream_NONCEBYTES), Flat (Exactly crypto_stream_KEYBYTES)] argv)"
  "(fst (enif_crypto_stream S argv w) = Badarg) = (\<not> args_ok [Uint64, Flat (Exactly crypto_stream_NONCEBYTES), Flat (Exactly crypto_stream_KEYBYTES)] argv)"
proof -
  have "(enif_crypto_stream S argv w = (Badarg, w)) = (\<not> args_ok [Uint64, Flat (Exactly crypto_stream_NONCEBYTES), Flat (Exactly crypto_stream_KEYBYTES)] argv) \<and>
        (fst (enif_crypto_stream S argv w) = Badarg) = (\<not> args_ok [Uint64, Flat (Exactly crypto_stream_NONCEBYTES), Flat (Exactly crypto_stream_KEYBYTES)] argv)"
  proof (cases "length argv = 3")
    case False
    then show ?thesis
      by (auto simp: enif_crypto_stream_def args_ok_def dest: list_all2_lengthD)
  next
    case True
    then obtain a0 a1 a2 where argv: "argv = [a0, a1, a2]" by (auto simp: length3)
    show ?thesis unfolding argv
      by (auto simp: enif_crypto_stream_def args_ok_def Let_def nacl_error_tuple_def
            enif_make_sub_binary_def split: option.splits prod.splits)
  qed
  then show "(enif_crypto_stream S argv w = (Badarg, w)) = (\<not> args_ok [Uint64, Flat (Exactly crypto_stream_NONCEBYTES), Flat (Exactly crypto_stream_KEYBYTES)] argv)"
    and "(fst (enif_crypto_stream S argv w) = Badarg) = (\<not> args_ok [Uint64, Flat (Exactly crypto_stream_NONCEBYTES), Flat (Exactly crypto_stream_KEYBYTES)] argv)"
    by simp_all
qed

lemma stream_xor_validation:
  "(enif_crypto_stream_xor S argv w = (Badarg, w)) = (\<not> args_ok [Iolist Any_size, Flat (Exactly crypto_stream_NONCEBYTES), Flat (Exactly crypto_stream_KEYBYTES)] argv)"
  "(fst (enif_crypto_stream_xor S argv w) = Badarg) = (\<not> args_ok [Iolist Any_size, Flat (Exactly crypto_stream_NONCEBYTES), Flat (Exactly crypto_stream_KEYBYTES)] argv)"
proof -
  have "(enif_crypto_stream_xor S argv w = (Badarg, w)) = (\<not> args_ok [Iolist Any_size, Flat (Exactly crypto_stream_NONCEBYTES), Flat (Exactly crypto_stream_KEYBYTES)] argv) \<and>
        (fst (enif_crypto_stream_xor S argv w) = Badarg) = (\<not> args_ok [Iolist Any_size, Flat (Exactly crypto_stream_NONCEBYTES), Flat (Exactly crypto_stream_KEYBYTES)] argv)"
  proof (cases "length argv = 3")
    case False
    then show ?thesis
      by (auto simp: enif_crypto_stream_xor_def args_ok_def dest: list_all2_lengthD)
  next
    case True
    then obtain a0 a1 a2 where argv: "argv = [a0, a1, a2]" by (auto simp: length3)
    show ?thesis unfolding argv
      by (auto simp: enif_crypto_stream_xor_def args_ok_def Let_def nacl_error_tuple_def
            enif_make_sub_binary_def split: option.splits prod.splits)
  qed
  then show "(enif_crypto_stream_xor S argv w = (Badarg, w)) = (\<not> args_ok [Iolist Any_size, Flat (Exactly crypto_stream_NONCEBYTES), Flat (Exactly crypto_stream_KEYBYTES)] argv)"
    and "(fst (enif_crypto_stream_xor S argv w) = Badarg) = (\<not> args_ok [Iolist Any_size, Flat (Exactly crypto_stream_NONCEBYTES), Flat (Exactly crypto_stream_KEYBYTES)] argv)"
    by simp_all
qed

lemma auth_validation:
  "(enif_crypto_auth S argv w = (Badarg, w)) = (\<not> args_ok [Iolist Any_size, Flat (Exactly crypto_auth_KEYBYTES)] argv)"
  "(fst (enif_crypto_auth S argv w) = Badarg) = (\<not> args_ok [Iolist Any_size, Flat (Exactly crypto_auth_KEYBYTES)] argv)"
proof -
  have "(enif_crypto_auth S argv w = (Badarg, w)) = (\<not> args_ok [Iolist Any_size, Flat (Exactly crypto_auth_KEYBYTES)] argv) \<and>
        (fst (enif_crypto_auth S argv w) = Badarg) = (\<not> args_ok [Iolist Any_size, Flat (Exactly crypto_auth_KEYBYTES)] argv)"
  proof (cases "length argv = 2")
    case False
    then show ?thesis
      by (auto simp: enif_crypto_auth_def args_ok_def dest: list_all2_lengthD)
  next
    case True
    then obtain a0 a1 where argv: "argv = [a0, a1]" by (auto simp: length2)
    show ?thesis unfolding argv
      by (auto simp: enif_crypto_auth_def args_ok_def Let_def nacl_error_tuple_def
            enif_make_sub_binary_def split: option.splits prod.splits)
  qed
  then show "(enif_crypto_auth S argv w = (Badarg, w)) = (\<not> args_ok [Iolist Any_size, Flat (Exactly crypto_auth_KEYBYTES)] argv)"
    and "(fst (enif_crypto_auth S argv w) = Badarg) = (\<not> args_ok [Iolist Any_size, Flat (Exactly crypto_auth_KEYBYTES)] argv)"
    by simp_all
qed

lemma auth_verify_validation:
  "(enif_crypto_auth_verify S argv w = (Badarg, w)) = (\<not> args_ok [Flat (Exactly crypto_auth_BYTES), Iolist Any_size, Flat (Exactly crypto_auth_KEYBYTES)] argv)"
  "(fst (enif_crypto_auth_verify S argv w) = Badarg) = (\<not> args_ok [Flat (Exactly crypto_auth_BYTES), Iolist Any_size, Flat (Exactly crypto_auth_KEYBYTES)] argv)"
proof -
  have "(enif_crypto_auth_verify S argv w = (Badarg, w)) = (\<not> args_ok [Flat (Exactly crypto_auth_BYTES), Iolist Any_size, Flat (Exactly crypto_auth_KEYBYTES)] argv) \<and>
        (fst (enif_crypto_auth_verify S argv w) = Badarg) = (\<not> args_ok [Flat (Exactly crypto_auth_BYTES), Iolist Any_size, Flat (Exactly crypto_auth_KEYBYTES)] argv)"
  proof (cases "length argv = 3")
    case False
    then show ?thesis
      by (auto simp: enif_crypto_auth_verify_def args_ok_def dest: list_all2_lengthD)
  next
    case True
    then obtain a0 a1 a2 where argv: "argv = [a0, a1, a2]" by (auto simp: length3)
    show ?thesis unfolding argv
      by (auto simp: enif_crypto_auth_verify_def args_ok_def Let_def nacl_error_tuple_def
            enif_make_sub_binary_def split: option.splits prod.splits)
  qed
  then show "(enif_crypto_auth_verify S argv w = (Badarg, w)) = (\<not> args_ok [Flat (Exactly crypto_auth_BYTES), Iolist Any_size, Flat (Exactly crypto_auth_KEYBYTES)] argv)"
    and "(fst (enif_crypto_auth_verify S argv w) = Badarg) = (\<not> args_ok [Flat (Exactly crypto_auth_BYTES), Iolist Any_size, Flat (Exactly crypto_auth_KEYBYTES)] argv)"
    by simp_all
qed

lemma onetimeauth_validation:
  "(enif_crypto_onetimeauth S argv w = (Badarg, w)) = (\<not> args_ok [Iolist Any_size, Flat (Exactly crypto_onetimeauth_KEYBYTES)] argv)"
  "(fst (enif_crypto_onetimeauth S argv w) = Badarg) = (\<not> args_ok [Iolist Any_size, Flat (Exactly crypto_onetimeauth_KEYBYTES)] argv)"
proof -
  have "(enif_crypto_onetimeauth S argv w = (Badarg, w)) = (\<not> args_ok [Iolist Any_size, Flat (Exactly crypto_onetimeauth_KEYBYTES)] argv) \<and>
        (fst (enif_crypto_onetimeauth S argv w) = Badarg) = (\<not> args_ok [Iolist Any_size, Flat (Exactly crypto_onetimeauth_KEYBYTES)] argv)"
  proof (cases "length argv = 2")
    case False
    then show ?thesis
      by (auto simp: enif_crypto_onetimeauth_def args_ok_def dest: list_all2_lengthD)
  next
    case True
    then obtain a0 a1 where argv: "argv = [a0, a1]" by (auto simp: length2)
    show ?thesis unfolding argv
      by (auto simp: enif_crypto_onetimeauth_def args_ok_def Let_def nacl_error_tuple_def
            enif_make_sub_binary_def split: option.splits prod.splits)
  qed
  then show "(enif_crypto_onetimeauth S argv w = (Badarg, w)) = (\<not> args_ok [Iolist Any_size, Flat (Exactly crypto_onetimeauth_KEYBYTES)] argv)"
    and "(fst (enif_crypto_onetimeauth S argv w) = Badarg) = (\<not> args_ok [Iolist Any_size, Flat (Exactly crypto_onetimeauth_KEYBYTES)] argv)"
    by simp_all
qed

lemma onetimeauth_verify_validation:
  "(enif_crypto_onetimeauth_verify S argv w = (Badarg, w)) = (\<not> args_ok [Flat (Exactly crypto_onetimeauth_BYTES), Iolist Any_size, Flat (Exactly crypto_onetimeauth_KEYBYTES)] argv)"
  "(fst (enif_crypto_onetimeauth_verify S argv w) = Badarg) = (\<not> args_ok [Flat (Exactly crypto_onetimeauth_BYTES), Iolist Any_size, Flat (Exactly crypto_onetimeauth_KEYBYTES)] argv)"
proof -
  have "(enif_crypto_onetimeauth_verify S argv w = (Badarg, w)) = (\<not> args_ok [Flat (Exactly crypto_onetimeauth_BYTES), Iolist Any_size, Flat (Exactly crypto_onetimeauth_KEYBYTES)] argv) \<and>
        (fst (enif_crypto_onetimeauth_verify S argv w) = Badarg) = (\<not> args_ok [Flat (Exactly crypto_onetimeauth_BYTES), Iolist Any_size, Flat (Exactly crypto_onetimeauth_KEYBYTES)] argv)"
  proof (cases "length argv = 3")
    case False
    then show ?thesis
      by (auto simp: enif_crypto_onetimeauth_verify_def args_ok_def dest: list_all2_lengthD)
  next
    case True
    then obtain a0 a1 a2 where argv: "argv = [a0, a1, a2]" by (auto simp: length3)
    show ?thesis unfolding argv
      by (auto simp: enif_crypto_onetimeauth_verify_def args_ok_def Let_def nacl_error_tuple_def
            enif_make_sub_binary_def split: option.splits prod.splits)
  qed
  then show "(enif_crypto_onetimeauth_verify S argv w = (Badarg, w)) = (\<not> args_ok [Flat (Exactly crypto_onetimeauth_BYTES), Iolist Any_size, Flat (Exactly crypto_onetimeauth_KEYBYTES)] argv)"
    and "(fst (enif_crypto_onetimeauth_verify S argv w) = Badarg) = (\<not> args_ok [Flat (Exactly crypto_onetimeauth_BYTES), Iolist Any_size, Flat (Exactly crypto_onetimeauth_KEYBYTES)] argv)"
    by simp_all
qed

lemma invalid_badarg:
  assumes "primitive_spec h = Some spec" and "\<not> args_ok spec argv"
  shows "nif_apply h S argv w = (Badarg, w)"
  using assms
  by (cases h)
     (simp_all add: hash_validation verify_16_validation verify_32_validation
        box_keypair_validation box_validation box_open_validation sign_keypair_validation
        sign_validation sign_open_validation secretbox_validation secretbox_open_validation
        stream_validation stream_xor_validation auth_validation auth_verify_validation
        onetimeauth_validation onetimeauth_verify_validation)

lemma valid_not_badarg:
  assumes "primitive_spec h = Some spec" and "args_ok spec argv"
  shows "fst (nif_apply h S argv w) \<noteq> Badarg"
  using assms
  by (cases h)
     (simp_all add: hash_validation verify_16_validation verify_32_validation
        box_keypair_validation box_validation box_open_validation sign_keypair_validation
        sign_validation sign_open_validation secretbox_validation secretbox_open_validation
        stream_validation stream_xor_validation auth_validation auth_verify_validation
        onetimeauth_validation onetimeauth_verify_validation)

lemma arg_size_violation_not_ok: "arg_size_violation s t \<Longrightarrow> \<not> arg_ok s t"
  by (cases s) (auto split: option.splits)

lemma violation_not_ok:
  assumes "arity_violation spec argv \<or> size_violation spec argv"
  shows "\<not> args_ok spec argv"
proof
  assume ok: "args_ok spec argv"
  then have len: "length spec = length argv"
    by (simp add: args_ok_def list_all2_lengthD)
  from ok have all: "\<forall>(s, t) \<in> set (zip spec argv). arg_ok s t"
    by (auto simp: args_ok_def list_all2_iff)
  from assms len have "size_violation spec argv"
    by (simp add: arity_violation_def)
  then obtain s t where "(s, t) \<in> set (zip spec argv)" "arg_size_violation s t"
    by (auto simp: size_violation_def list_ex_iff)
  with all show False
    using arg_size_violation_not_ok by blast
qed

section \<open>The trace of a call\<close>

lemma enif_alloc_binary_eq:
  "enif_alloc_binary n w =
     (granted w,
      w\<lparr>alloc_results := tl (alloc_results w), trace := trace w @ [Alloc n (granted w)]\<rparr>)"
  by (cases w) (simp add: enif_alloc_binary_def granted_def split: list.splits)

lemma hash_alloc_failed:
  assumes "Alloc n False \<in> set (new_events w (snd (enif_crypto_hash S argv w)))"
  shows "fst (enif_crypto_hash S argv w) = nacl_error_tuple ''alloc_failed'' \<and>
         (\<exists>ks. new_events w (snd (enif_crypto_hash S argv w)) = map (\<lambda>k. Alloc k True) ks @ [Alloc n False])"
  using assms
  by (auto simp: enif_crypto_hash_def new_events_def executed_def enif_release_binary_def Let_def enif_alloc_binary_eq
        split: if_splits option.splits prod.splits)

lemma verify_16_alloc_failed:
  assumes "Alloc n False \<in> set (new_events w (snd (enif_crypto_verify_16 S argv w)))"
  shows "fst (enif_crypto_verify_16 S argv w) = nacl_error_tuple ''alloc_failed'' \<and>
         (\<exists>ks. new_events w (snd (enif_crypto_verify_16 S argv w)) = map (\<lambda>k. Alloc k True) ks @ [Alloc n False])"
  using assms
  by (auto simp: enif_crypto_verify_16_def new_events_def executed_def enif_release_binary_def Let_def enif_alloc_binary_eq
        split: if_splits option.splits prod.splits)

lemma verify_32_alloc_failed:
  assumes "Alloc n False \<in> set (new_events w (snd (enif_crypto_verify_32 S argv w)))"
  shows "fst (enif_crypto_verify_32 S argv w) = nacl_error_tuple ''alloc_failed'' \<and>
         (\<exists>ks. new_events w (snd (enif_crypto_verify_32 S argv w)) = map (\<lambda>k. Alloc k True) ks @ [Alloc n False])"
  using assms
  by (auto simp: enif_crypto_verify_32_def new_events_def executed_def enif_release_binary_def Let_def enif_alloc_binary_eq
        split: if_splits option.splits prod.splits)

lemma box_keypair_alloc_failed:
  assumes "Alloc n False \<in> set (new_events w (snd (enif_crypto_box_keypair S argv w)))"
  shows "fst (enif_crypto_box_keypair S argv w) = nacl_error_tuple ''alloc_failed'' \<and>
         (\<exists>ks. new_events w (snd (enif_crypto_box_keypair S argv w)) = map (\<lambda>k. Alloc k True) ks @ [Alloc n False])"
  using assms
  apply (auto simp: enif_crypto_box_keypair_def new_events_def executed_def enif_release_binary_def Let_def enif_alloc_binary_eq
           split: if_splits option.splits prod.splits)
  apply (rule exI [of _ "[32]"])
  apply simp
  done

lemma box_alloc_failed:
  assumes "Alloc n False \<in> set (new_events w (snd (enif_crypto_box S argv w)))"
  shows "fst (enif_crypto_box S argv w) = nacl_error_tuple ''alloc_failed'' \<and>
         (\<exists>ks. new_events w (snd (enif_crypto_box S argv w)) = map (\<lambda>k. Alloc k True) ks @ [Alloc n False])"
  using assms
  by (auto simp: enif_crypto_box_def new_events_def executed_def enif_release_binary_def Let_def enif_alloc_binary_eq
        split: if_splits option.splits prod.splits)

lemma box_open_alloc_failed:
  assumes "Alloc n False \<in> set (new_events w (snd (enif_crypto_box_open S argv w)))"
  shows "fst (enif_crypto_box_open S argv w) = nacl_error_tuple ''alloc_failed'' \<and>
         (\<exists>ks. new_events w (snd (enif_crypto_box_open S argv w)) = map (\<lambda>k. Alloc k True) ks @ [Alloc n False])"
  using assms
  by (auto simp: enif_crypto_box_open_def new_events_def executed_def enif_release_binary_def Let_def enif_alloc_binary_eq
        split: if_splits option.splits prod.splits)

lemma sign_keypair_alloc_failed:
  assumes "Alloc n False \<in> set (new_events w (snd (enif_crypto_sign_keypair S argv w)))"
  shows "fst (enif_crypto_sign_keypair S argv w) = nacl_error_tuple ''alloc_failed'' \<and>
         (\<exists>ks. new_events w (snd (enif_crypto_sign_keypair S argv w)) = map (\<lambda>k. Alloc k True) ks @ [Alloc n False])"
  using assms
  apply (auto simp: enif_crypto_sign_keypair_def new_events_def executed_def enif_release_binary_def Let_def enif_alloc_binary_eq
           split: if_splits option.splits prod.splits)
  apply (rule exI [of _ "[32]"])
  apply simp
  done

lemma sign_alloc_failed:
  assumes "Alloc n False \<in> set (new_events w (snd (enif_crypto_sign S argv w)))"
  shows "fst (enif_crypto_sign S argv w) = nacl_error_tuple ''alloc_failed'' \<and>
         (\<exists>ks. new_events w (snd (enif_crypto_sign S argv w)) = map (\<lambda>k. Alloc k True) ks @ [Alloc n False])"
  using assms
  by (auto simp: enif_crypto_sign_def new_events_def executed_def enif_release_binary_def Let_def enif_alloc_binary_eq
        split: if_splits option.splits prod.splits)

lemma sign_open_alloc_failed:
  assumes "Alloc n False \<in> set (new_events w (snd (enif_crypto_sign_open S argv w)))"
  shows "fst (enif_crypto_sign_open S argv w) = nacl_error_tuple ''alloc_failed'' \<and>
         (\<exists>ks. new_events w (snd (enif_crypto_sign_open S argv w)) = map (\<lambda>k. Alloc k True) ks @ [Alloc n False])"
  using assms
  by (auto simp: enif_crypto_sign_open_def new_events_def executed_def enif_release_binary_def Let_def enif_alloc_binary_eq
        split: if_splits option.splits prod.splits)

lemma secretbox_alloc_failed:
  assumes "Alloc n False \<in> set (new_events w (snd (enif_crypto_secretbox S argv w)))"
  shows "fst (enif_crypto_secretbox S argv w) = nacl_error_tuple ''alloc_failed'' \<and>
         (\<exists>ks. new_events w (snd (enif_crypto_secretbox S argv w)) = map (\<lambda>k. Alloc k True) ks @ [Alloc n False])"
  using assms
  by (auto simp: enif_crypto_secretbox_def new_events_def executed_def enif_release_binary_def Let_def enif_alloc_binary_eq
        split: if_splits option.splits prod.splits)

lemma secretbox_open_alloc_failed:
  assumes "Alloc n False \<in> set (new_events w (snd (enif_crypto_secretbox_open S argv w)))"
  shows "fst (enif_crypto_secretbox_open S argv w) = nacl_error_tuple ''alloc_failed'' \<and>
         (\<exists>ks. new_events w (snd (enif_crypto_secretbox_open S argv w)) = map (\<lambda>k. Alloc k True) ks @ [Alloc n False])"
  using assms
  by (auto simp: enif_crypto_secretbox_open_def new_events_def executed_def enif_release_binary_def Let_def enif_alloc_binary_eq
        split: if_splits option.splits prod.splits)

lemma stream_alloc_failed:
  assumes "Alloc n False \<in> set (new_events w (snd (enif_crypto_stream S argv w)))"
  shows "fst (enif_crypto_stream S argv w) = nacl_error_tuple ''alloc_failed'' \<and>
         (\<exists>ks. new_events w (snd (enif_crypto_stream S argv w)) = map (\<lambda>k. Alloc k True) ks @ [Alloc n False])"
  using assms
  by (auto simp: enif_crypto_stream_def new_events_def executed_def enif_release_binary_def Let_def enif_alloc_binary_eq
        split: if_splits option.splits prod.splits)

lemma stream_xor_alloc_failed:
  assumes "Alloc n False \<in> set (new_events w (snd (enif_crypto_stream_xor S argv w)))"
  shows "fst (enif_crypto_stream_xor S argv w) = nacl_error_tuple ''alloc_failed'' \<and>
         (\<exists>ks. new_events w (snd (enif_crypto_stream_xor S argv w)) = map (\<lambda>k. Alloc k True) ks @ [Alloc n False])"
  using assms
  by (auto simp: enif_crypto_stream_xor_def new_events_def executed_def enif_release_binary_def Let_def enif_alloc_binary_eq
        split: if_splits option.splits prod.splits)

lemma auth_alloc_failed:
  assumes "Alloc n False \<in> set (new_events w (snd (enif_crypto_auth S argv w)))"
  shows "fst (enif_crypto_auth S argv w) = nacl_error_tuple ''alloc_failed'' \<and>
         (\<exists>ks. new_events w (snd (enif_crypto_auth S argv w)) = map (\<lambda>k. Alloc k True) ks @ [Alloc n False])"
  using assms
  by (auto simp: enif_crypto_auth_def new_events_def executed_def enif_release_binary_def Let_def enif_alloc_binary_eq
        split: if_splits option.splits prod.splits)

lemma auth_verify_alloc_failed:
  assumes "Alloc n False \<in> set (new_events w (snd (enif_crypto_auth_verify S argv w)))"
  shows "fst (enif_crypto_auth_verify S argv w) = nacl_error_tuple ''alloc_failed'' \<and>
         (\<exists>ks. new_events w (snd (enif_crypto_auth_verify S argv w)) = map (\<lambda>k. Alloc k True) ks @ [Alloc n False])"
  using assms
  by (auto simp: enif_crypto_auth_verify_def new_events_def executed_def enif_release_binary_def Let_def enif_alloc_binary_eq
        split: if_splits option.splits prod.splits)

lemma onetimeauth_alloc_failed:
  assumes "Alloc n False \<in> set (new_events w (snd (enif_crypto_onetimeauth S argv w)))"
  shows "fst (enif_crypto_onetimeauth S argv w) = nacl_error_tuple ''alloc_failed'' \<and>
         (\<exists>ks. new_events w (snd (enif_crypto_onetimeauth S argv w)) = map (\<lambda>k. Alloc k True) ks @ [Alloc n False])"
  using assms
  by (auto simp: enif_crypto_onetimeauth_def new_events_def executed_def enif_release_binary_def Let_def enif_alloc_binary_eq
        split: if_splits option.splits prod.splits)

lemma onetimeauth_verify_alloc_failed:
  assumes "Alloc n False \<in> set (new_events w (snd (enif_crypto_onetimeauth_verify S argv w)))"
  shows "fst (enif_crypto_onetimeauth_verify S argv w) = nacl_error_tuple ''alloc_failed'' \<and>
         (\<exists>ks. new_events w (snd (enif_crypto_onetimeauth_verify S argv w)) = map (\<lambda>k. Alloc k True) ks @ [Alloc n False])"
  using assms
  by (auto simp: enif_crypto_onetimeauth_verify_def new_events_def executed_def enif_release_binary_def Let_def enif_alloc_binary_eq
        split: if_splits option.splits prod.splits)

lemma alloc_failed_last:
  assumes "Alloc n False \<in> set (new_events w (snd (nif_apply h S argv w)))"
  shows "fst (nif_apply h S argv w) = nacl_error_tuple ''alloc_failed'' \<and>
         (\<exists>ks. new_events w (snd (nif_apply h S argv w))
                 = map (\<lambda>k. Alloc k True) ks @ [Alloc n False])"
proof (cases h)
  case (Size_getter m)
  with assms show ?thesis
    by (simp add: enif_crypto_size_getter_def new_events_def)
next
  case Enif_crypto_hash
  with assms hash_alloc_failed [of n w S argv] show ?thesis by simp
next
  case Enif_crypto_verify_16
  with assms verify_16_alloc_failed [of n w S argv] show ?thesis by simp
next
  case Enif_crypto_verify_32
  with assms verify_32_alloc_failed [of n w S argv] show ?thesis by simp
next
  case Enif_crypto_box_keypair
  with assms box_keypair_alloc_failed [of n w S argv] show ?thesis by simp
next
  case Enif_crypto_box
  with assms box_alloc_failed [of n w S argv] show ?thesis by simp
next
  case Enif_crypto_box_open
  with assms box_open_alloc_failed [of n w S argv] show ?thesis by simp
next
  case Enif_crypto_sign_keypair
  with assms sign_keypair_alloc_failed [of n w S argv] show ?thesis by simp
next
  case Enif_crypto_sign
  with assms sign_alloc_failed [of n w S argv] show ?thesis by simp
next
  case Enif_crypto_sign_open
  with assms sign_open_alloc_failed [of n w S argv] show ?thesis by simp
next
  case Enif_crypto_secretbox
  with assms secretbox_alloc_failed [of n w S argv] show ?thesis by simp
next
  case Enif_crypto_secretbox_open
  with assms secretbox_open_alloc_failed [of n w S argv] show ?thesis by simp
next
  case Enif_crypto_stream
  with assms stream_alloc_failed [of n w S argv] show ?thesis by simp
next
  case Enif_crypto_stream_xor
  with assms stream_xor_alloc_failed [of n w S argv] show ?thesis by simp
next
  case Enif_crypto_auth
  with assms auth_alloc_failed [of n w S argv] show ?thesis by simp
next
  case Enif_crypto_auth_verify
  with assms auth_verify_alloc_failed [of n w S argv] show ?thesis by simp
next
  case Enif_crypto_onetimeauth
  with assms onetimeauth_alloc_failed [of n w S argv] show ?thesis by simp
next
  case Enif_crypto_onetimeauth_verify
  with assms onetimeauth_verify_alloc_failed [of n w S argv] show ?thesis by simp
qed

lemma hash_starved:
  assumes "args_ok [Iolist Any_size] argv" and "\<not> granted w"
  shows "\<exists>n. new_events w (snd (enif_crypto_hash S argv w)) = [Alloc n False]"
  using assms
  by (auto simp: args_ok_def list_all2_Cons1 enif_crypto_hash_def new_events_def Let_def
        enif_alloc_binary_eq split: option.splits)

lemma box_keypair_starved:
  assumes "args_ok [] argv" and "\<not> granted w"
  shows "new_events w (snd (enif_crypto_box_keypair S argv w)) = [Alloc 32 False]"
  using assms
  by (auto simp: args_ok_def list_all2_Cons1 enif_crypto_box_keypair_def new_events_def Let_def
        enif_alloc_binary_eq split: option.splits)

lemma box_starved:
  assumes "args_ok [Iolist (At_least crypto_box_ZEROBYTES), Flat (Exactly crypto_box_NONCEBYTES), Flat (Exactly crypto_box_PUBLICKEYBYTES), Flat (Exactly crypto_box_SECRETKEYBYTES)] argv" and "\<not> granted w"
  shows "\<exists>n. new_events w (snd (enif_crypto_box S argv w)) = [Alloc n False]"
  using assms
  by (auto simp: args_ok_def list_all2_Cons1 enif_crypto_box_def new_events_def Let_def
        enif_alloc_binary_eq split: option.splits)

lemma box_open_starved:
  assumes "args_ok [Iolist (At_least crypto_box_BOXZEROBYTES), Flat (Exactly crypto_box_NONCEBYTES), Flat (Exactly crypto_box_PUBLICKEYBYTES), Flat (Exactly crypto_box_SECRETKEYBYTES)] argv" and "\<not> granted w"
  shows "\<exists>n. new_events w (snd (enif_crypto_box_open S argv w)) = [Alloc n False]"
  using assms
  by (auto simp: args_ok_def list_all2_Cons1 enif_crypto_box_open_def new_events_def Let_def
        enif_alloc_binary_eq split: option.splits)

lemma sign_keypair_starved:
  assumes "args_ok [] argv" and "\<not> granted w"
  shows "new_events w (snd (enif_crypto_sign_keypair S argv w)) = [Alloc 32 False]"
  using assms
  by (auto simp: args_ok_def list_all2_Cons1 enif_crypto_sign_keypair_def new_events_def Let_def
        enif_alloc_binary_eq split: option.splits)

lemma sign_starved:
  assumes "args_ok [Iolist Any_size, Flat (Exactly crypto_sign_SECRETKEYBYTES)] argv" and "\<not> granted w"
  shows "\<exists>n. new_events w (snd (enif_crypto_sign S argv w)) = [Alloc n False]"
  using assms
  by (auto simp: args_ok_def list_all2_Cons1 enif_crypto_sign_def new_events_def Let_def
        enif_alloc_binary_eq split: option.splits)

lemma sign_open_starved:
  assumes "args_ok [Iolist Any_size, Flat (Exactly crypto_sign_PUBLICKEYBYTES)] argv" and "\<not> granted w"
  shows "\<exists>n. new_events w (snd (enif_crypto_sign_open S argv w)) = [Alloc n False]"
  using assms
  by (auto simp: args_ok_def list_all2_Cons1 enif_crypto_sign_open_def new_events_def Let_def
        enif_alloc_binary_eq split: option.splits)

lemma secretbox_starved:
  assumes "args_ok [Iolist (At_least crypto_secretbox_ZEROBYTES), Flat (Exactly crypto_secretbox_NONCEBYTES), Flat (Exactly crypto_secretbox_KEYBYTES)] argv" and "\<not> granted w"
  shows "\<exists>n. new_events w (snd (enif_crypto_secretbox S argv w)) = [Alloc n False]"
  using assms
  by (auto simp: args_ok_def list_all2_Cons1 enif_crypto_secretbox_def new_events_def Let_def
        enif_alloc_binary_eq split: option.splits)

lemma secretbox_open_starved:
  assumes "args_ok [Iolist (At_least crypto_secretbox_BOXZEROBYTES), Flat (Exactly crypto_secretbox_NONCEBYTES), Flat (Exactly crypto_secretbox_KEYBYTES)] argv" and "\<not> granted w"
  shows "\<exists>n. new_events w (snd (enif_crypto_secretbox_open S argv w)) = [Alloc n False]"
  using assms
  by (auto simp: args_ok_def list_all2_Cons1 enif_crypto_secretbox_open_def new_events_def Let_def
        enif_alloc_binary_eq split: option.splits)

lemma stream_starved:
  assumes "args_ok [Uint64, Flat (Exactly crypto_stream_NONCEBYTES), Flat (Exactly crypto_stream_KEYBYTES)] argv" and "\<not> granted w"
  shows "\<exists>n. new_events w (snd (enif_crypto_stream S argv w)) = [Alloc n False]"
  using assms
  by (auto simp: args_ok_def list_all2_Cons1 enif_crypto_stream_def new_events_def Let_def
        enif_alloc_binary_eq split: option.splits)

lemma stream_xor_starved:
  assumes "args_ok [Iolist Any_size, Flat (Exactly crypto_stream_NONCEBYTES), Flat (Exactly crypto_stream_KEYBYTES)] argv" and "\<not> granted w"
  shows "\<exists>n. new_events w (snd (enif_crypto_stream_xor S argv w)) = [Alloc n False]"
  using assms
  by (auto simp: args_ok_def list_all2_Cons1 enif_crypto_stream_xor_def new_events_def Let_def
        enif_alloc_binary_eq split: option.splits)

lemma auth_starved:
  assumes "args_ok [Iolist Any_size, Flat (Exactly crypto_auth_KEYBYTES)] argv" and "\<not> granted w"
  shows "\<exists>n. new_events w (snd (enif_crypto_auth S argv w)) = [Alloc n False]"
  using assms
  by (auto simp: args_ok_def list_all2_Cons1 enif_crypto_auth_def new_events_def Let_def
        enif_alloc_binary_eq split: option.splits)

lemma onetimeauth_starved:
  assumes "args_ok [Iolist Any_size, Flat (Exactly crypto_onetimeauth_KEYBYTES)] argv" and "\<not> granted w"
  shows "\<exists>n. new_events w (snd (enif_crypto_onetimeauth S argv w)) = [Alloc n False]"
  using assms
  by (auto simp: args_ok_def list_all2_Cons1 enif_crypto_onetimeauth_def new_events_def Let_def
        enif_alloc_binary_eq split: option.splits)

lemma allocation_attempted:
  assumes "primitive_spec h = Some spec" and "args_ok spec argv" and "\<not> granted w"
    and "h \<notin> {Enif_crypto_verify_16, Enif_crypto_verify_32, Enif_crypto_auth_verify,
               Enif_crypto_onetimeauth_verify}"
  shows "\<exists>n. new_events w (snd (nif_apply h S argv w)) = [Alloc n False]"
proof (cases h)
  case (Size_getter m)
  with assms(1) show ?thesis by simp
next
  case Enif_crypto_hash
  with assms(1,2,3) hash_starved [of argv w S] show ?thesis by auto
next
  case Enif_crypto_verify_16
  with assms(4) show ?thesis by simp
next
  case Enif_crypto_verify_32
  with assms(4) show ?thesis by simp
next
  case Enif_crypto_box_keypair
  with assms(1,2,3) box_keypair_starved [of argv w S] show ?thesis by auto
next
  case Enif_crypto_box
  with assms(1,2,3) box_starved [of argv w S] show ?thesis by auto
next
  case Enif_crypto_box_open
  with assms(1,2,3) box_open_starved [of argv w S] show ?thesis by auto
next
  case Enif_crypto_sign_keypair
  with assms(1,2,3) sign_keypair_starved [of argv w S] show ?thesis by auto
next
  case Enif_crypto_sign
  with assms(1,2,3) sign_starved [of argv w S] show ?thesis by auto
next
  case Enif_crypto_sign_open
  with assms(1,2,3) sign_open_starved [of argv w S] show ?thesis by auto
next
  case Enif_crypto_secretbox
  with assms(1,2,3) secretbox_starved [of argv w S] show ?thesis by auto
next
  case Enif_crypto_secretbox_open
  with assms(1,2,3) secretbox_open_starved [of argv w S] show ?thesis by auto
next
  case Enif_crypto_stream
  with assms(1,2,3) stream_starved [of argv w S] show ?thesis by auto
next
  case Enif_crypto_stream_xor
  with assms(1,2,3) stream_xor_starved [of argv w S] show ?thesis by auto
next
  case Enif_crypto_auth
  with assms(1,2,3) auth_starved [of argv w S] show ?thesis by auto
next
  case Enif_crypto_auth_verify
  with assms(4) show ?thesis by simp
next
  case Enif_crypto_onetimeauth
  with assms(1,2,3) onetimeauth_starved [of argv w S] show ?thesis by auto
next
  case Enif_crypto_onetimeauth_verify
  with assms(4) show ?thesis by simp
qed

section \<open>Iolists and flat binaries\<close>

lemma hash_iolist:
  assumes "enif_inspect_iolist_as_binary t = Some b"
  shows "enif_crypto_hash S (argv[0 := t]) w = enif_crypto_hash S (argv[0 := Binary b]) w"
proof (cases "length argv = 1")
  case False
  then show ?thesis by (simp add: enif_crypto_hash_def)
next
  case True
  then obtain a0 where "argv = [a0]" by (auto simp: length1)
  with assms show ?thesis by (simp add: enif_crypto_hash_def cong: option.case_cong)
qed

lemma box_iolist:
  assumes "enif_inspect_iolist_as_binary t = Some b"
  shows "enif_crypto_box S (argv[0 := t]) w = enif_crypto_box S (argv[0 := Binary b]) w"
proof (cases "length argv = 4")
  case False
  then show ?thesis by (simp add: enif_crypto_box_def)
next
  case True
  then obtain a0 a1 a2 a3 where "argv = [a0, a1, a2, a3]" by (auto simp: length4)
  with assms show ?thesis by (simp add: enif_crypto_box_def cong: option.case_cong)
qed

lemma box_open_iolist:
  assumes "enif_inspect_iolist_as_binary t = Some b"
  shows "enif_crypto_box_open S (argv[0 := t]) w = enif_crypto_box_open S (argv[0 := Binary b]) w"
proof (cases "length argv = 4")
  case False
  then show ?thesis by (simp add: enif_crypto_box_open_def)
next
  case True
  then obtain a0 a1 a2 a3 where "argv = [a0, a1, a2, a3]" by (auto simp: length4)
  with assms show ?thesis by (simp add: enif_crypto_box_open_def cong: option.case_cong)
qed

lemma sign_iolist:
  assumes "enif_inspect_iolist_as_binary t = Some b"
  shows "enif_crypto_sign S (argv[0 := t]) w = enif_crypto_sign S (argv[0 := Binary b]) w"
proof (cases "length argv = 2")
  case False
  then show ?thesis by (simp add: enif_crypto_sign_def)
next
  case True
  then obtain a0 a1 where "argv = [a0, a1]" by (auto simp: length2)
  with assms show ?thesis by (simp add: enif_crypto_sign_def cong: option.case_cong)
qed

lemma sign_open_iolist:
  assumes "enif_inspect_iolist_as_binary t = Some b"
  shows "enif_crypto_sign_open S (argv[0 := t]) w = enif_crypto_sign_open S (argv[0 := Binary b]) w"
proof (cases "length argv = 2")
  case False
  then show ?thesis by (simp add: enif_crypto_sign_open_def)
next
  case True
  then obtain a0 a1 where "argv = [a0, a1]" by (auto simp: length2)
  with assms show ?thesis by (simp add: enif_crypto_sign_open_def cong: option.case_cong)
qed

lemma secretbox_iolist:
  assumes "enif_inspect_iolist_as_binary t = Some b"
  shows "enif_crypto_secretbox S (argv[0 := t]) w = enif_crypto_secretbox S (argv[0 := Binary b]) w"
proof (cases "length argv = 3")
  case False
  then show ?thesis by (simp add: enif_crypto_secretbox_def)
next
  case True
  then obtain a0 a1 a2 where "argv = [a0, a1, a2]" by (auto simp: length3)
  with assms show ?thesis by (simp add: enif_crypto_secretbox_def cong: option.case_cong)
qed

lemma secretbox_open_iolist:
  assumes "enif_inspect_iolist_as_binary t = Some b"
  shows "enif_crypto_secretbox_open S (argv[0 := t]) w = enif_crypto_secretbox_open S (argv[0 := Binary b]) w"
proof (cases "length argv = 3")
  case False
  then show ?thesis by (simp add: enif_crypto_secretbox_open_def)
next
  case True
  then obtain a0 a1 a2 where "argv = [a0, a1, a2]" by (auto simp: length3)
  with assms show ?thesis by (simp add: enif_crypto_secretbox_open_def cong: option.case_cong)
qed

lemma stream_xor_iolist:
  assumes "enif_inspect_iolist_as_binary t = Some b"
  shows "enif_crypto_stream_xor S (argv[0 := t]) w = enif_crypto_stream_xor S (argv[0 := Binary b]) w"
proof (cases "length argv = 3")
  case False
  then show ?thesis by (simp add: enif_crypto_stream_xor_def)
next
  case True
  then obtain a0 a1 a2 where "argv = [a0, a1, a2]" by (auto simp: length3)
  with assms show ?thesis by (simp add: enif_crypto_stream_xor_def cong: option.case_cong)
qed

lemma auth_iolist:
  assumes "enif_inspect_iolist_as_binary t = Some b"
  shows "enif_crypto_auth S (argv[0 := t]) w = enif_crypto_auth S (argv[0 := Binary b]) w"
proof (cases "length argv = 2")
  case False
  then show ?thesis by (simp add: enif_crypto_auth_def)
next
  case True
  then obtain a0 a1 where "argv = [a0, a1]" by (auto simp: length2)
  with assms show ?thesis by (simp add: enif_crypto_auth_def cong: option.case_cong)
qed

lemma auth_verify_iolist:
  assumes "enif_inspect_iolist_as_binary t = Some b"
  shows "enif_crypto_auth_verify S (argv[1 := t]) w = enif_crypto_auth_verify S (argv[1 := Binary b]) w"
proof (cases "length argv = 3")
  case False
  then show ?thesis by (simp add: enif_crypto_auth_verify_def)
next
  case True
  then obtain a0 a1 a2 where "argv = [a0, a1, a2]" by (auto simp: length3)
  with assms show ?thesis by (simp add: enif_crypto_auth_verify_def cong: option.case_cong)
qed

lemma onetimeauth_iolist:
  assumes "enif_inspect_iolist_as_binary t = Some b"
  shows "enif_crypto_onetimeauth S (argv[0 := t]) w = enif_crypto_onetimeauth S (argv[0 := Binary b]) w"
proof (cases "length argv = 2")
  case False
  then show ?thesis by (simp add: enif_crypto_onetimeauth_def)
next
  case True
  then obtain a0 a1 where "argv = [a0, a1]" by (auto simp: length2)
  with assms show ?thesis by (simp add: enif_crypto_onetimeauth_def cong: option.case_cong)
qed

lemma onetimeauth_verify_iolist:
  assumes "enif_inspect_iolist_as_binary t = Some b"
  shows "enif_crypto_onetimeauth_verify S (argv[1 := t]) w = enif_crypto_onetimeauth_verify S (argv[1 := Binary b]) w"
proof (cases "length argv = 3")
  case False
  then show ?thesis by (simp add: enif_crypto_onetimeauth_verify_def)
next
  case True
  then obtain a0 a1 a2 where "argv = [a0, a1, a2]" by (auto simp: length3)
  with assms show ?thesis by (simp add: enif_crypto_onetimeauth_verify_def cong: option.case_cong)
qed

lemma less_1: "(i < Suc 0) = (i = 0)"
  by simp

lemma less_2: "(i < Suc (Suc 0)) = (i = 0 \<or> i = 1)"
  by arith

lemma less_3: "(i < Suc (Suc (Suc 0))) = (i = 0 \<or> i = 1 \<or> i = 2)"
  by arith

lemma less_4: "(i < Suc (Suc (Suc (Suc 0)))) = (i = 0 \<or> i = 1 \<or> i = 2 \<or> i = 3)"
  by arith

lemma iolist_accepted:
  assumes "primitive_spec h = Some spec" and "i < length spec" and "spec ! i = Iolist c"
    and "enif_inspect_iolist_as_binary t = Some b"
  shows "nif_apply h S (argv[i := t]) w = nif_apply h S (argv[i := Binary b]) w"
proof (cases h)
  case (Size_getter m)
  with assms(1) show ?thesis by simp
next
  case Enif_crypto_hash
  with assms(1) have spec: "spec = [Iolist Any_size]" by simp
  with assms(2) have "i = 0" by (simp add: less_1)
  with assms(3) spec have "i = 0" by auto
  with Enif_crypto_hash hash_iolist [OF assms(4)] show ?thesis by simp
next
  case Enif_crypto_verify_16
  with assms(1) have spec: "spec = [Flat (Exactly 16), Flat (Exactly 16)]" by simp
  with assms(2) have "i = 0 \<or> i = 1" by (simp add: less_2)
  with assms(3) spec show ?thesis by auto
next
  case Enif_crypto_verify_32
  with assms(1) have spec: "spec = [Flat (Exactly 32), Flat (Exactly 32)]" by simp
  with assms(2) have "i = 0 \<or> i = 1" by (simp add: less_2)
  with assms(3) spec show ?thesis by auto
next
  case Enif_crypto_box_keypair
  with assms(1,2) show ?thesis by simp
next
  case Enif_crypto_box
  with assms(1) have spec: "spec = [Iolist (At_least crypto_box_ZEROBYTES), Flat (Exactly crypto_box_NONCEBYTES), Flat (Exactly crypto_box_PUBLICKEYBYTES), Flat (Exactly crypto_box_SECRETKEYBYTES)]" by simp
  with assms(2) have "i = 0 \<or> i = 1 \<or> i = 2 \<or> i = 3" by (simp add: less_4)
  with assms(3) spec have "i = 0" by auto
  with Enif_crypto_box box_iolist [OF assms(4)] show ?thesis by simp
next
  case Enif_crypto_box_open
  with assms(1) have spec: "spec = [Iolist (At_least crypto_box_BOXZEROBYTES), Flat (Exactly crypto_box_NONCEBYTES), Flat (Exactly crypto_box_PUBLICKEYBYTES), Flat (Exactly crypto_box_SECRETKEYBYTES)]" by simp
  with assms(2) have "i = 0 \<or> i = 1 \<or> i = 2 \<or> i = 3" by (simp add: less_4)
  with assms(3) spec have "i = 0" by auto
  with Enif_crypto_box_open box_open_iolist [OF assms(4)] show ?thesis by simp
next
  case Enif_crypto_sign_keypair
  with assms(1,2) show ?thesis by simp
next
  case Enif_crypto_sign
  with assms(1) have spec: "spec = [Iolist Any_size, Flat (Exactly crypto_sign_SECRETKEYBYTES)]" by simp
  with assms(2) have "i = 0 \<or> i = 1" by (simp add: less_2)
  with assms(3) spec have "i = 0" by auto
  with Enif_crypto_sign sign_iolist [OF assms(4)] show ?thesis by simp
next
  case Enif_crypto_sign_open
  with assms(1) have spec: "spec = [Iolist Any_size, Flat (Exactly crypto_sign_PUBLICKEYBYTES)]" by simp
  with assms(2) have "i = 0 \<or> i = 1" by (simp add: less_2)
  with assms(3) spec have "i = 0" by auto
  with Enif_crypto_sign_open sign_open_iolist [OF assms(4)] show ?thesis by simp
next
  case Enif_crypto_secretbox
  with assms(1) have spec: "spec = [Iolist (At_least crypto_secretbox_ZEROBYTES), Flat (Exactly crypto_secretbox_NONCEBYTES), Flat (Exactly crypto_secretbox_KEYBYTES)]" by simp
  with assms(2) have "i = 0 \<or> i = 1 \<or> i = 2" by (simp add: less_3)
  with assms(3) spec have "i = 0" by auto
  with Enif_crypto_secretbox secretbox_iolist [OF assms(4)] show ?thesis by simp
next
  case Enif_crypto_secretbox_open
  with assms(1) have spec: "spec = [Iolist (At_least crypto_secretbox_BOXZEROBYTES), Flat (Exactly crypto_secretbox_NONCEBYTES), Flat (Exactly crypto_secretbox_KEYBYTES)]" by simp
  with assms(2) have "i = 0 \<or> i = 1 \<or> i = 2" by (simp add: less_3)
  with assms(3) spec have "i = 0" by auto
  with Enif_crypto_secretbox_open secretbox_open_iolist [OF assms(4)] show ?thesis by simp
next
  case Enif_crypto_stream
  with assms(1) have spec: "spec = [Uint64, Flat (Exactly crypto_stream_NONCEBYTES), Flat (Exactly crypto_stream_KEYBYTES)]" by simp
  with assms(2) have "i = 0 \<or> i = 1 \<or> i = 2" by (simp add: less_3)
  with assms(3) spec show ?thesis by auto
next
  case Enif_crypto_stream_xor
  with assms(1) have spec: "spec = [Iolist Any_size, Flat (Exactly crypto_stream_NONCEBYTES), Flat (Exactly crypto_stream_KEYBYTES)]" by simp
  with assms(2) have "i = 0 \<or> i = 1 \<or> i = 2" by (simp add: less_3)
  with assms(3) spec have "i = 0" by auto
  with Enif_crypto_stream_xor stream_xor_iolist [OF assms(4)] show ?thesis by simp
next
  case Enif_crypto_auth
  with assms(1) have spec: "spec = [Iolist Any_size, Flat (Exactly crypto_auth_KEYBYTES)]" by simp
  with assms(2) have "i = 0 \<or> i = 1" by (simp add: less_2)
  with assms(3) spec have "i = 0" by auto
  with Enif_crypto_auth auth_iolist [OF assms(4)] show ?thesis by simp
next
  case Enif_crypto_auth_verify
  with assms(1) have spec: "spec = [Flat (Exactly crypto_auth_BYTES), Iolist Any_size, Flat (Exactly crypto_auth_KEYBYTES)]" by simp
  with assms(2) have "i = 0 \<or> i = 1 \<or> i = 2" by (simp add: less_3)
  with assms(3) spec have "i = 1" by auto
  with Enif_crypto_auth_verify auth_verify_iolist [OF assms(4)] show ?thesis by simp
next
  case Enif_crypto_onetimeauth
  with assms(1) have spec: "spec = [Iolist Any_size, Flat (Exactly crypto_onetimeauth_KEYBYTES)]" by simp
  with assms(2) have "i = 0 \<or> i = 1" by (simp add: less_2)
  with assms(3) spec have "i = 0" by auto
  with Enif_crypto_onetimeauth onetimeauth_iolist [OF assms(4)] show ?thesis by simp
next
  case Enif_crypto_onetimeauth_verify
  with assms(1) have spec: "spec = [Flat (Exactly crypto_onetimeauth_BYTES), Iolist Any_size, Flat (Exactly crypto_onetimeauth_KEYBYTES)]" by simp
  with assms(2) have "i = 0 \<or> i = 1 \<or> i = 2" by (simp add: less_3)
  with assms(3) spec have "i = 1" by auto
  with Enif_crypto_onetimeauth_verify onetimeauth_verify_iolist [OF assms(4)] show ?thesis by simp
qed

lemma flat_required:
  assumes "primitive_spec h = Some spec" and "i < length spec" and "spec ! i = Flat c"
    and "\<forall>b. argv ! i \<noteq> Binary b"
  shows "nif_apply h S argv w = (Badarg, w)"
proof -
  have "\<not> args_ok spec argv"
  proof
    assume "args_ok spec argv"
    then have "arg_ok (spec ! i) (argv ! i)"
      using assms(2) by (simp add: args_ok_def list_all2_nthD)
    with assms(3) obtain b where "enif_inspect_binary (argv ! i) = Some b"
      by (auto split: option.splits)
    then have "argv ! i = Binary b"
      by (cases "argv ! i") simp_all
    with assms(4) show False by simp
  qed
  with assms(1) show ?thesis by (rule invalid_badarg)
qed

section \<open>The two entries of a primitive\<close>

lemma find_conj_filter: "find (\<lambda>x. P x \<and> Q x) xs = find Q (filter P xs)"
  by (induction xs) auto

lemma nif_lookup_entries:
  "nif_lookup fname n = find (\<lambda>f. arity f = n) (entries_named fname)"
  by (simp add: nif_lookup_def entries_named_def find_conj_filter)

lemma all_registered_twice: "list_all registered_twice crypto_primitives"
  by code_simp

lemma entries_named_name: "f \<in> set (entries_named fname) \<Longrightarrow> name f = fname"
  by (simp add: entries_named_def)

lemma nif4_eq:
  "name f = n \<Longrightarrow> arity f = a \<Longrightarrow> fptr f = h \<Longrightarrow> flags f = fl \<Longrightarrow> f = nif4 n a h fl"
  by (cases f) (simp add: nif4_def)

lemma nif3_eq:
  "name f = n \<Longrightarrow> arity f = a \<Longrightarrow> fptr f = h \<Longrightarrow> flags f = 0 \<Longrightarrow> f = nif3 n a h"
  by (cases f) (simp add: nif3_def)

lemma registered_twiceD:
  assumes "p \<in> set crypto_primitives"
  shows "\<exists>a h. entries_named p = [nif4 p a h ERL_NIF_DIRTY_JOB_CPU_BOUND] \<and>
               entries_named (p @ ''_b'') = [nif3 (p @ ''_b'') a h] \<and>
               entries_of h = [nif3 (p @ ''_b'') a h, nif4 p a h ERL_NIF_DIRTY_JOB_CPU_BOUND]"
proof -
  from assms all_registered_twice have "registered_twice p"
    by (simp add: list_all_iff)
  then obtain f g where fg: "entries_named p = [f]" "entries_named (p @ ''_b'') = [g]"
      "flags f = ERL_NIF_DIRTY_JOB_CPU_BOUND" "flags g = 0" "arity g = arity f"
      "fptr g = fptr f" "entries_of (fptr f) = [g, f]"
    by (auto simp: registered_twice_def split: list.splits)
  from fg(1) have "name f = p" by (simp add: entries_named_name)
  with fg(3) have f: "f = nif4 p (arity f) (fptr f) ERL_NIF_DIRTY_JOB_CPU_BOUND"
    by (intro nif4_eq) simp_all
  from fg(2) have "name g = p @ ''_b''" by (simp add: entries_named_name)
  with fg(4,5,6) have g: "g = nif3 (p @ ''_b'') (arity f) (fptr f)"
    by (intro nif3_eq) simp_all
  from fg(1,2,7) f g
  have "entries_named p = [nif4 p (arity f) (fptr f) ERL_NIF_DIRTY_JOB_CPU_BOUND] \<and>
        entries_named (p @ ''_b'') = [nif3 (p @ ''_b'') (arity f) (fptr f)] \<and>
        entries_of (fptr f)
          = [nif3 (p @ ''_b'') (arity f) (fptr f),
             nif4 p (arity f) (fptr f) ERL_NIF_DIRTY_JOB_CPU_BOUND]"
    by metis
  then show ?thesis by blast
qed

lemma dual_calls:
  assumes "p \<in> set crypto_primitives"
  shows "\<exists>a h. \<forall>S argv w.
           (length argv = a \<longrightarrow>
              erl_call S (p @ ''_b'') argv w = Some (Normal_scheduler, nif_apply h S argv w) \<and>
              erl_call S p argv w = Some (Dirty_cpu_scheduler, nif_apply h S argv w)) \<and>
           (length argv \<noteq> a \<longrightarrow>
              erl_call S (p @ ''_b'') argv w = None \<and> erl_call S p argv w = None)"
proof -
  from registered_twiceD [OF assms] obtain a h where
    "entries_named p = [nif4 p a h ERL_NIF_DIRTY_JOB_CPU_BOUND]"
    "entries_named (p @ ''_b'') = [nif3 (p @ ''_b'') a h]"
    by blast
  then have "\<forall>S argv w.
           (length argv = a \<longrightarrow>
              erl_call S (p @ ''_b'') argv w = Some (Normal_scheduler, nif_apply h S argv w) \<and>
              erl_call S p argv w = Some (Dirty_cpu_scheduler, nif_apply h S argv w)) \<and>
           (length argv \<noteq> a \<longrightarrow>
              erl_call S (p @ ''_b'') argv w = None \<and> erl_call S p argv w = None)"
    by (simp add: erl_call_def nif_lookup_entries nif3_def nif4_def scheduler_of_def)
  then show ?thesis by blast
qed

lemma lookup_hash: 
  "nif_lookup ''crypto_hash'' (Suc 0) = Some (nif4 ''crypto_hash'' 1 Enif_crypto_hash 1)"
  "nif_lookup ''crypto_hash_b'' (Suc 0) = Some (nif3 ''crypto_hash_b'' 1 Enif_crypto_hash)"
  by code_simp+


text \<open>
  Whatever the coefficients and the threshold, the two entries of \<open>crypto_hash\<close> cannot
  both follow the classification of the specification: called with the same message, one
  runs inline and the other on a dirty scheduler.
\<close>

lemma no_calibration_fits:
  "\<not> (map_option (\<lambda>x. path_of (fst x)) (erl_call S ''crypto_hash'' [m] w)
          = Some (spec_classify thr (spec_estimate fc pb len)) \<and>
       map_option (\<lambda>x. path_of (fst x)) (erl_call S ''crypto_hash_b'' [m] w)
          = Some (spec_classify thr (spec_estimate fc pb len)))"
  by (auto simp: erl_call_def lookup_hash nif3_def nif4_def scheduler_of_def)

section \<open>Opening what is shorter than the padding\<close>

lemma written_length: "length (written n out) = n"
  by (simp add: written_def)

lemma secretbox_open_no_underflow:
  assumes "\<forall>c n k. length c < crypto_secretbox_ZEROBYTES \<longrightarrow> fst (crypto_secretbox_open S c n k) \<noteq> 0"
  shows "fst (enif_crypto_secretbox_open S argv w) \<noteq> Undefined_sub_binary \<and>
         (\<forall>b. fst (enif_crypto_secretbox_open S argv w) = Term (Binary b) \<longrightarrow>
            (\<exists>c. enif_inspect_iolist_as_binary (argv ! 0) = Some c \<and>
                 crypto_secretbox_ZEROBYTES \<le> length c \<and>
                 length b = length c - crypto_secretbox_ZEROBYTES \<and>
                 size_t_sub (length c) crypto_secretbox_ZEROBYTES = length c - crypto_secretbox_ZEROBYTES))"
proof (cases "length argv = 3")
  case False
  then show ?thesis by (simp add: enif_crypto_secretbox_open_def)
next
  case True
  then obtain a0 a1 a2 where argv: "argv = [a0, a1, a2]" by (auto simp: length3)
  show ?thesis
  proof (cases "args_ok [Iolist (At_least 16), Flat (Exactly 24), Flat (Exactly 32)] argv")
    case False
    then have "enif_crypto_secretbox_open S argv w = (Badarg, w)"
      by (simp add: secretbox_open_validation)
    then show ?thesis by simp
  next
    case True
    then obtain c n k where dec: "enif_inspect_iolist_as_binary a0 = Some c"
        "enif_inspect_binary a1 = Some n" "enif_inspect_binary a2 = Some k"
        "16 \<le> length c" "length n = 24" "length k = 32"
      by (auto simp: argv args_ok_def split: option.splits)
    obtain rc out where prim: "crypto_secretbox_open S c n k = (rc, out)"
      by (cases "crypto_secretbox_open S c n k")
    have short: "length c < 32 \<Longrightarrow> rc \<noteq> 0"
      using assms prim by (metis fst_conv)
    show ?thesis
      using dec prim short
      by (auto simp: argv enif_crypto_secretbox_open_def enif_alloc_binary_eq Let_def
            nacl_error_tuple_def enif_make_tuple2_def enif_make_sub_binary_def size_t_sub_def
            written_length)
  qed
qed

lemma box_open_no_underflow:
  assumes "\<forall>c n pk sk. length c < crypto_box_ZEROBYTES \<longrightarrow> fst (crypto_box_open S c n pk sk) \<noteq> 0"
  shows "fst (enif_crypto_box_open S argv w) \<noteq> Undefined_sub_binary \<and>
         (\<forall>b. fst (enif_crypto_box_open S argv w) = Term (Binary b) \<longrightarrow>
            (\<exists>c. enif_inspect_iolist_as_binary (argv ! 0) = Some c \<and>
                 crypto_box_ZEROBYTES \<le> length c \<and>
                 length b = length c - crypto_box_ZEROBYTES \<and>
                 size_t_sub (length c) crypto_box_ZEROBYTES = length c - crypto_box_ZEROBYTES))"
proof (cases "length argv = 4")
  case False
  then show ?thesis by (simp add: enif_crypto_box_open_def)
next
  case True
  then obtain a0 a1 a2 a3 where argv: "argv = [a0, a1, a2, a3]" by (auto simp: length4)
  show ?thesis
  proof (cases "args_ok [Iolist (At_least 16), Flat (Exactly 24), Flat (Exactly 32), Flat (Exactly 32)] argv")
    case False
    then have "enif_crypto_box_open S argv w = (Badarg, w)"
      by (simp add: box_open_validation)
    then show ?thesis by simp
  next
    case True
    then obtain c n pk sk where dec: "enif_inspect_iolist_as_binary a0 = Some c"
        "enif_inspect_binary a1 = Some n" "enif_inspect_binary a2 = Some pk"
        "enif_inspect_binary a3 = Some sk"
        "16 \<le> length c" "length n = 24" "length pk = 32" "length sk = 32"
      by (auto simp: argv args_ok_def split: option.splits)
    obtain rc out where prim: "crypto_box_open S c n pk sk = (rc, out)"
      by (cases "crypto_box_open S c n pk sk")
    have short: "length c < 32 \<Longrightarrow> rc \<noteq> 0"
      using assms prim by (metis fst_conv)
    show ?thesis
      using dec prim short
      by (auto simp: argv enif_crypto_box_open_def enif_alloc_binary_eq Let_def
            nacl_error_tuple_def enif_make_tuple2_def enif_make_sub_binary_def size_t_sub_def
            written_length)
  qed
qed

lemma underflow_reachable:
  "fst (enif_crypto_secretbox_open careless_sodium [Binary (zeros 16), Binary (zeros 24), Binary (zeros 32)] idle_world)
     = Undefined_sub_binary \<and>
   size_t_sub 16 crypto_secretbox_ZEROBYTES = 18446744073709551600"
  by (simp add: enif_crypto_secretbox_open_def careless_sodium_def stub_sodium_def zeros_def
        enif_alloc_binary_def idle_world_def enif_make_sub_binary_def size_t_sub_def written_def)

section \<open>Accepted calls\<close>

text \<open>
  A handler other than a key generator whose arguments fit its constraints, and whose
  output buffer is granted, goes on to execute its primitive.
\<close>

lemma hash_runs:
  assumes "args_ok [Iolist Any_size] argv" and "granted w"
  shows "Exec ''crypto_hash'' \<in> set (new_events w (snd (enif_crypto_hash S argv w)))"
  using assms
  by (auto simp: args_ok_def list_all2_Cons1 enif_crypto_hash_def new_events_def Let_def
        executed_def enif_release_binary_def enif_alloc_binary_eq
        split: option.splits prod.splits)

lemma box_runs:
  assumes "args_ok [Iolist (At_least crypto_box_ZEROBYTES), Flat (Exactly crypto_box_NONCEBYTES), Flat (Exactly crypto_box_PUBLICKEYBYTES), Flat (Exactly crypto_box_SECRETKEYBYTES)] argv" and "granted w"
  shows "Exec ''crypto_box'' \<in> set (new_events w (snd (enif_crypto_box S argv w)))"
  using assms
  by (auto simp: args_ok_def list_all2_Cons1 enif_crypto_box_def new_events_def Let_def
        executed_def enif_release_binary_def enif_alloc_binary_eq
        split: option.splits prod.splits)

lemma box_open_runs:
  assumes "args_ok [Iolist (At_least crypto_box_BOXZEROBYTES), Flat (Exactly crypto_box_NONCEBYTES), Flat (Exactly crypto_box_PUBLICKEYBYTES), Flat (Exactly crypto_box_SECRETKEYBYTES)] argv" and "granted w"
  shows "Exec ''crypto_box_open'' \<in> set (new_events w (snd (enif_crypto_box_open S argv w)))"
  using assms
  by (auto simp: args_ok_def list_all2_Cons1 enif_crypto_box_open_def new_events_def Let_def
        executed_def enif_release_binary_def enif_alloc_binary_eq
        split: option.splits prod.splits)

lemma sign_runs:
  assumes "args_ok [Iolist Any_size, Flat (Exactly crypto_sign_SECRETKEYBYTES)] argv" and "granted w"
  shows "Exec ''crypto_sign'' \<in> set (new_events w (snd (enif_crypto_sign S argv w)))"
  using assms
  by (auto simp: args_ok_def list_all2_Cons1 enif_crypto_sign_def new_events_def Let_def
        executed_def enif_release_binary_def enif_alloc_binary_eq
        split: option.splits prod.splits)

lemma sign_open_runs:
  assumes "args_ok [Iolist Any_size, Flat (Exactly crypto_sign_PUBLICKEYBYTES)] argv" and "granted w"
  shows "Exec ''crypto_sign_open'' \<in> set (new_events w (snd (enif_crypto_sign_open S argv w)))"
  using assms
  by (auto simp: args_ok_def list_all2_Cons1 enif_crypto_sign_open_def new_events_def Let_def
        executed_def enif_release_binary_def enif_alloc_binary_eq
        split: option.splits prod.splits)

lemma secretbox_runs:
  assumes "args_ok [Iolist (At_least crypto_secretbox_ZEROBYTES), Flat (Exactly crypto_secretbox_NONCEBYTES), Flat (Exactly crypto_secretbox_KEYBYTES)] argv" and "granted w"
  shows "Exec ''crypto_secretbox'' \<in> set (new_events w (snd (enif_crypto_secretbox S argv w)))"
  using assms
  by (auto simp: args_ok_def list_all2_Cons1 enif_crypto_secretbox_def new_events_def Let_def
        executed_def enif_release_binary_def enif_alloc_binary_eq
        split: option.splits prod.splits)

lemma secretbox_open_runs:
  assumes "args_ok [Iolist (At_least crypto_secretbox_BOXZEROBYTES), Flat (Exactly crypto_secretbox_NONCEBYTES), Flat (Exactly crypto_secretbox_KEYBYTES)] argv" and "granted w"
  shows "Exec ''crypto_secretbox_open'' \<in> set (new_events w (snd (enif_crypto_secretbox_open S argv w)))"
  using assms
  by (auto simp: args_ok_def list_all2_Cons1 enif_crypto_secretbox_open_def new_events_def Let_def
        executed_def enif_release_binary_def enif_alloc_binary_eq
        split: option.splits prod.splits)

lemma stream_runs:
  assumes "args_ok [Uint64, Flat (Exactly crypto_stream_NONCEBYTES), Flat (Exactly crypto_stream_KEYBYTES)] argv" and "granted w"
  shows "Exec ''crypto_stream'' \<in> set (new_events w (snd (enif_crypto_stream S argv w)))"
  using assms
  by (auto simp: args_ok_def list_all2_Cons1 enif_crypto_stream_def new_events_def Let_def
        executed_def enif_release_binary_def enif_alloc_binary_eq
        split: option.splits prod.splits)

lemma stream_xor_runs:
  assumes "args_ok [Iolist Any_size, Flat (Exactly crypto_stream_NONCEBYTES), Flat (Exactly crypto_stream_KEYBYTES)] argv" and "granted w"
  shows "Exec ''crypto_stream_xor'' \<in> set (new_events w (snd (enif_crypto_stream_xor S argv w)))"
  using assms
  by (auto simp: args_ok_def list_all2_Cons1 enif_crypto_stream_xor_def new_events_def Let_def
        executed_def enif_release_binary_def enif_alloc_binary_eq
        split: option.splits prod.splits)

lemma auth_runs:
  assumes "args_ok [Iolist Any_size, Flat (Exactly crypto_auth_KEYBYTES)] argv" and "granted w"
  shows "Exec ''crypto_auth'' \<in> set (new_events w (snd (enif_crypto_auth S argv w)))"
  using assms
  by (auto simp: args_ok_def list_all2_Cons1 enif_crypto_auth_def new_events_def Let_def
        executed_def enif_release_binary_def enif_alloc_binary_eq
        split: option.splits prod.splits)

lemma auth_verify_runs:
  assumes "args_ok [Flat (Exactly crypto_auth_BYTES), Iolist Any_size, Flat (Exactly crypto_auth_KEYBYTES)] argv" and "granted w"
  shows "Exec ''crypto_auth_verify'' \<in> set (new_events w (snd (enif_crypto_auth_verify S argv w)))"
  using assms
  by (auto simp: args_ok_def list_all2_Cons1 enif_crypto_auth_verify_def new_events_def Let_def
        executed_def enif_release_binary_def enif_alloc_binary_eq
        split: option.splits prod.splits)

lemma onetimeauth_runs:
  assumes "args_ok [Iolist Any_size, Flat (Exactly crypto_onetimeauth_KEYBYTES)] argv" and "granted w"
  shows "Exec ''crypto_onetimeauth'' \<in> set (new_events w (snd (enif_crypto_onetimeauth S argv w)))"
  using assms
  by (auto simp: args_ok_def list_all2_Cons1 enif_crypto_onetimeauth_def new_events_def Let_def
        executed_def enif_release_binary_def enif_alloc_binary_eq
        split: option.splits prod.splits)

lemma onetimeauth_verify_runs:
  assumes "args_ok [Flat (Exactly crypto_onetimeauth_BYTES), Iolist Any_size, Flat (Exactly crypto_onetimeauth_KEYBYTES)] argv" and "granted w"
  shows "Exec ''crypto_onetimeauth_verify'' \<in> set (new_events w (snd (enif_crypto_onetimeauth_verify S argv w)))"
  using assms
  by (auto simp: args_ok_def list_all2_Cons1 enif_crypto_onetimeauth_verify_def new_events_def Let_def
        executed_def enif_release_binary_def enif_alloc_binary_eq
        split: option.splits prod.splits)

lemma verify_16_runs:
  assumes "args_ok [Flat (Exactly 16), Flat (Exactly 16)] argv" and "granted w"
  shows "Exec ''crypto_verify_16'' \<in> set (new_events w (snd (enif_crypto_verify_16 S argv w)))"
  using assms
  by (auto simp: args_ok_def list_all2_Cons1 enif_crypto_verify_16_def new_events_def Let_def
        executed_def enif_release_binary_def enif_alloc_binary_eq
        split: option.splits prod.splits)

lemma verify_32_runs:
  assumes "args_ok [Flat (Exactly 32), Flat (Exactly 32)] argv" and "granted w"
  shows "Exec ''crypto_verify_32'' \<in> set (new_events w (snd (enif_crypto_verify_32 S argv w)))"
  using assms
  by (auto simp: args_ok_def list_all2_Cons1 enif_crypto_verify_32_def new_events_def Let_def
        executed_def enif_release_binary_def enif_alloc_binary_eq
        split: option.splits prod.splits)

lemma accepted_runs:
  assumes "primitive_spec h = Some spec" and "args_ok spec argv" and "granted w"
    and "h \<notin> {Enif_crypto_box_keypair, Enif_crypto_sign_keypair}"
  shows "\<exists>p. Exec p \<in> set (new_events w (snd (nif_apply h S argv w)))"
proof (cases h)
  case (Size_getter m)
  with assms(1) show ?thesis by simp
next
  case Enif_crypto_box_keypair
  with assms(4) show ?thesis by simp
next
  case Enif_crypto_sign_keypair
  with assms(4) show ?thesis by simp
next
  case Enif_crypto_hash
  with assms(1,2,3) hash_runs [of argv w S] show ?thesis by auto
next
  case Enif_crypto_box
  with assms(1,2,3) box_runs [of argv w S] show ?thesis by auto
next
  case Enif_crypto_box_open
  with assms(1,2,3) box_open_runs [of argv w S] show ?thesis by auto
next
  case Enif_crypto_sign
  with assms(1,2,3) sign_runs [of argv w S] show ?thesis by auto
next
  case Enif_crypto_sign_open
  with assms(1,2,3) sign_open_runs [of argv w S] show ?thesis by auto
next
  case Enif_crypto_secretbox
  with assms(1,2,3) secretbox_runs [of argv w S] show ?thesis by auto
next
  case Enif_crypto_secretbox_open
  with assms(1,2,3) secretbox_open_runs [of argv w S] show ?thesis by auto
next
  case Enif_crypto_stream
  with assms(1,2,3) stream_runs [of argv w S] show ?thesis by auto
next
  case Enif_crypto_stream_xor
  with assms(1,2,3) stream_xor_runs [of argv w S] show ?thesis by auto
next
  case Enif_crypto_auth
  with assms(1,2,3) auth_runs [of argv w S] show ?thesis by auto
next
  case Enif_crypto_auth_verify
  with assms(1,2,3) auth_verify_runs [of argv w S] show ?thesis by auto
next
  case Enif_crypto_onetimeauth
  with assms(1,2,3) onetimeauth_runs [of argv w S] show ?thesis by auto
next
  case Enif_crypto_onetimeauth_verify
  with assms(1,2,3) onetimeauth_verify_runs [of argv w S] show ?thesis by auto
next
  case Enif_crypto_verify_16
  with assms(1,2,3) verify_16_runs [of argv w S] show ?thesis by auto
next
  case Enif_crypto_verify_32
  with assms(1,2,3) verify_32_runs [of argv w S] show ?thesis by auto
qed

lemma iolist_position_not_keypair:
  assumes "primitive_spec h = Some spec" and "i < length spec"
  shows "h \<notin> {Enif_crypto_box_keypair, Enif_crypto_sign_keypair}"
  using assms by auto

lemma keypair_second_refused:
  assumes "h \<in> {Enif_crypto_box_keypair, Enif_crypto_sign_keypair}"
    and "alloc_results w = True # False # rest"
  shows "fst (nif_apply h S [] w) = nacl_error_tuple ''alloc_failed'' \<and>
         (\<exists>n. new_events w (snd (nif_apply h S [] w))
                = [Alloc crypto_box_PUBLICKEYBYTES True, Alloc n False])"
  using assms
  by (auto simp: enif_crypto_box_keypair_def enif_crypto_sign_keypair_def
        enif_alloc_binary_eq granted_def new_events_def)

section \<open>Inline and offloaded entries\<close>

text \<open>
  C1: for each of the thirteen primitives, the entry that runs inline (\<open>_b\<close>, on the normal
  scheduler) and the entry that is offloaded (on a dirty CPU scheduler) return the same
  result and leave the same world, for all arguments: called with the registered number
  of arguments both run the same C function, called with another number neither exists.
\<close>

theorem C1_same_function:
  assumes "p \<in> set crypto_primitives"
  shows "map_option snd (erl_call S (p @ ''_b'') argv w) = map_option snd (erl_call S p argv w) \<and>
         (\<exists>a. \<forall>S' argv' w'. length argv' = a \<longrightarrow>
            (\<exists>r. erl_call S' (p @ ''_b'') argv' w' = Some (Normal_scheduler, r) \<and>
                 erl_call S' p argv' w' = Some (Dirty_cpu_scheduler, r)))"
proof -
  from dual_calls [OF assms] obtain a h where *: "\<forall>S argv w.
           (length argv = a \<longrightarrow>
              erl_call S (p @ ''_b'') argv w = Some (Normal_scheduler, nif_apply h S argv w) \<and>
              erl_call S p argv w = Some (Dirty_cpu_scheduler, nif_apply h S argv w)) \<and>
           (length argv \<noteq> a \<longrightarrow>
              erl_call S (p @ ''_b'') argv w = None \<and> erl_call S p argv w = None)"
    by blast
  have "map_option snd (erl_call S (p @ ''_b'') argv w) = map_option snd (erl_call S p argv w)"
    using * by (cases "length argv = a") simp_all
  moreover have "\<forall>S argv w. length argv = a \<longrightarrow>
            (\<exists>r. erl_call S (p @ ''_b'') argv w = Some (Normal_scheduler, r) \<and>
                 erl_call S p argv w = Some (Dirty_cpu_scheduler, r))"
    using * by simp
  ultimately show ?thesis by blast
qed

theorem C1_same_function_witness:
  "''crypto_hash'' \<in> set crypto_primitives \<and>
   map_option snd (erl_call stub_sodium ''crypto_hash_b'' [Binary []] idle_world)
     = map_option snd (erl_call stub_sodium ''crypto_hash'' [Binary []] idle_world) \<and>
   map_option (fst \<circ> snd) (erl_call stub_sodium ''crypto_hash'' [Binary []] idle_world)
     = Some (Term (Binary (zeros 64)))"
  using C1_same_function [of "''crypto_hash''" stub_sodium "[Binary []]" idle_world]
  by (simp add: crypto_primitives_def erl_call_def lookup_hash nif4_def
        enif_crypto_hash_def enif_alloc_binary_def idle_world_def stub_sodium_def
        written_def zeros_def enif_make_binary_def)

text \<open>
  C4, as the code has it: the path of a call is fixed by the name the caller chose. The
  entry named after the primitive always runs on a dirty CPU scheduler and the entry with
  the suffix \<open>_b\<close> always runs inline, whatever the arguments and their sizes; the table
  holds no cost and no threshold.
\<close>

theorem C4_path_by_name:
  assumes "p \<in> set crypto_primitives"
  shows "(erl_call S p argv w = Some (s, r) \<longrightarrow> path_of s = Offload) \<and>
         (erl_call S (p @ ''_b'') argv' w' = Some (s', r') \<longrightarrow> path_of s' = Inline)"
proof -
  from dual_calls [OF assms] obtain a h where *: "\<forall>S argv w.
           (length argv = a \<longrightarrow>
              erl_call S (p @ ''_b'') argv w = Some (Normal_scheduler, nif_apply h S argv w) \<and>
              erl_call S p argv w = Some (Dirty_cpu_scheduler, nif_apply h S argv w)) \<and>
           (length argv \<noteq> a \<longrightarrow>
              erl_call S (p @ ''_b'') argv w = None \<and> erl_call S p argv w = None)"
    by blast
  have "erl_call S p argv w = Some (s, r) \<longrightarrow> path_of s = Offload"
    using * by (cases "length argv = a") auto
  moreover have "erl_call S (p @ ''_b'') argv' w' = Some (s', r') \<longrightarrow> path_of s' = Inline"
    using * by (cases "length argv' = a") auto
  ultimately show ?thesis by blast
qed

theorem C4_path_by_name_witness:
  "''crypto_hash'' \<in> set crypto_primitives \<and>
   erl_call stub_sodium ''crypto_hash'' [Binary []] idle_world
     = Some (Dirty_cpu_scheduler, nif_apply Enif_crypto_hash stub_sodium [Binary []] idle_world) \<and>
   path_of Dirty_cpu_scheduler = Offload \<and>
   erl_call stub_sodium ''crypto_hash_b'' [Binary (zeros 200)] idle_world
     = Some (Normal_scheduler,
             nif_apply Enif_crypto_hash stub_sodium [Binary (zeros 200)] idle_world) \<and>
   path_of Normal_scheduler = Inline"
  using C4_path_by_name [of "''crypto_hash''" stub_sodium "[Binary []]" idle_world
          Dirty_cpu_scheduler "nif_apply Enif_crypto_hash stub_sodium [Binary []] idle_world"
          "[Binary (zeros 200)]" idle_world Normal_scheduler
          "nif_apply Enif_crypto_hash stub_sodium [Binary (zeros 200)] idle_world"]
  by (simp add: crypto_primitives_def erl_call_def lookup_hash nif3_def nif4_def
        scheduler_of_def)

text \<open>
  C4, as the claim has it, fails: with a fixed cost of 1, a cost of 1 per byte and a
  threshold of 100, hashing the empty message is classified inline and hashing 200 bytes
  is classified offload; yet \<open>crypto_hash\<close> runs the first on a dirty scheduler and
  \<open>crypto_hash_b\<close> runs the second inline.
\<close>

theorem C4_counterexample:
  "map_option fst (erl_call stub_sodium ''crypto_hash'' [Binary []] idle_world)
     = Some Dirty_cpu_scheduler \<and>
   path_of Dirty_cpu_scheduler = Offload \<and>
   spec_classify 100 (spec_estimate 1 1 (length ([] :: bytes))) = Inline \<and>
   map_option fst (erl_call stub_sodium ''crypto_hash_b'' [Binary (zeros 200)] idle_world)
     = Some Normal_scheduler \<and>
   path_of Normal_scheduler = Inline \<and>
   spec_classify 100 (spec_estimate 1 1 (length (zeros 200))) = Offload"
  by (simp add: erl_call_def lookup_hash nif3_def nif4_def scheduler_of_def spec_classify_def
        spec_estimate_def zeros_def)

text \<open>
  C5, as the code has it: each of the thirteen primitives is open to the callers under
  two names, the name of the primitive (flagged for the dirty CPU scheduler) and that name
  with the suffix \<open>_b\<close> (no flags), both for the same C function with the same number of
  arguments, and these two are the only entries of that function.
\<close>

theorem C5_two_entries:
  assumes "p \<in> set crypto_primitives"
  shows "\<exists>a h. entries_named p = [nif4 p a h ERL_NIF_DIRTY_JOB_CPU_BOUND] \<and>
               entries_named (p @ ''_b'') = [nif3 (p @ ''_b'') a h] \<and>
               entries_of h = [nif3 (p @ ''_b'') a h, nif4 p a h ERL_NIF_DIRTY_JOB_CPU_BOUND]"
  using assms by (rule registered_twiceD)

theorem C5_two_entries_witness:
  "''crypto_box'' \<in> set crypto_primitives \<and>
   (\<exists>a h. entries_named ''crypto_box'' = [nif4 ''crypto_box'' a h ERL_NIF_DIRTY_JOB_CPU_BOUND] \<and>
          entries_named ''crypto_box_b'' = [nif3 ''crypto_box_b'' a h] \<and>
          entries_of h
            = [nif3 ''crypto_box_b'' a h, nif4 ''crypto_box'' a h ERL_NIF_DIRTY_JOB_CPU_BOUND])"
  using C5_two_entries [of "''crypto_box''"]
  by (simp add: crypto_primitives_def)

text \<open>
  C5, as the claim has it, fails: the function \<^verbatim>\<open>enif_crypto_box\<close> has two entries in the
  table, of different names.
\<close>

theorem C5_counterexample:
  "names_of Enif_crypto_box = [''crypto_box_b'', ''crypto_box'']"
  by code_simp

section \<open>Contract violations\<close>

text \<open>
  C2: a call to a handler of a primitive whose number of arguments is wrong, or one of
  whose arguments decodes to a buffer of the wrong size (key, nonce or authenticator not
  of the fixed length, padded message or ciphertext shorter than the padding the guard
  asks for), returns badarg and leaves the world untouched: nothing was allocated and no
  primitive of libsodium was executed.
\<close>

theorem C2_violation_rejected:
  assumes "primitive_spec h = Some spec"
    and "arity_violation spec argv \<or> size_violation spec argv"
  shows "nif_apply h S argv w = (Badarg, w)"
  using assms invalid_badarg violation_not_ok by blast

theorem C2_violation_rejected_witness:
  "primitive_spec Enif_crypto_secretbox_open =
     Some [Iolist (At_least 16), Flat (Exactly 24), Flat (Exactly 32)]
   \<and> size_violation [Iolist (At_least 16), Flat (Exactly 24), Flat (Exactly 32)]
        [Binary (zeros 40), Binary (zeros 24), Binary (zeros 31)]
   \<and> enif_crypto_secretbox_open stub_sodium
        [Binary (zeros 40), Binary (zeros 24), Binary (zeros 31)] idle_world
       = (Badarg, idle_world)
   \<and> arity_violation [Iolist (At_least 16), Flat (Exactly 24), Flat (Exactly 32)]
        [Binary (zeros 40), Binary (zeros 24)]
   \<and> enif_crypto_secretbox_open stub_sodium [Binary (zeros 40), Binary (zeros 24)] idle_world
       = (Badarg, idle_world)"
  using C2_violation_rejected [of Enif_crypto_secretbox_open
          "[Iolist (At_least 16), Flat (Exactly 24), Flat (Exactly 32)]"
          "[Binary (zeros 40), Binary (zeros 24), Binary (zeros 31)]" stub_sodium idle_world]
        C2_violation_rejected [of Enif_crypto_secretbox_open
          "[Iolist (At_least 16), Flat (Exactly 24), Flat (Exactly 32)]"
          "[Binary (zeros 40), Binary (zeros 24)]" stub_sodium idle_world]
  by (simp add: size_violation_def arity_violation_def zeros_def)

section \<open>Failed verification\<close>

text \<open>
  C3: when the arguments of \<open>secretbox_open\<close>, \<open>box_open\<close> or \<open>sign_open\<close> pass the
  checks of the handler, the output buffer is granted and the primitive reports a failure
  (any non-zero return code, whatever it wrote), the handler returns the one value
  \<open>{error, failed_verification}\<close>. That value is not badarg, not the failure of an
  allocation, and not a binary, which is what a success returns.
\<close>

theorem C3_failed_verification:
  "(enif_inspect_iolist_as_binary c = Some ct \<and> crypto_secretbox_BOXZEROBYTES \<le> length ct \<and>
    length nonce = crypto_secretbox_NONCEBYTES \<and> length key = crypto_secretbox_KEYBYTES \<and>
    fst (enif_alloc_binary (length ct) w) \<and>
    fst (crypto_secretbox_open S ct nonce key) \<noteq> 0 \<longrightarrow>
      fst (enif_crypto_secretbox_open S [c, Binary nonce, Binary key] w)
        = nacl_error_tuple ''failed_verification'') \<and>
   (enif_inspect_iolist_as_binary bc = Some bct \<and> crypto_box_BOXZEROBYTES \<le> length bct \<and>
    length bnonce = crypto_box_NONCEBYTES \<and> length pk = crypto_box_PUBLICKEYBYTES \<and>
    length sk = crypto_box_SECRETKEYBYTES \<and>
    fst (enif_alloc_binary (length bct) w) \<and>
    fst (crypto_box_open S bct bnonce pk sk) \<noteq> 0 \<longrightarrow>
      fst (enif_crypto_box_open S [bc, Binary bnonce, Binary pk, Binary sk] w)
        = nacl_error_tuple ''failed_verification'') \<and>
   (enif_inspect_iolist_as_binary sm = Some smt \<and> length spk = crypto_sign_PUBLICKEYBYTES \<and>
    fst (enif_alloc_binary (length smt) w) \<and>
    fst (crypto_sign_open S smt spk) \<noteq> 0 \<longrightarrow>
      fst (enif_crypto_sign_open S [sm, Binary spk] w)
        = nacl_error_tuple ''failed_verification'') \<and>
   nacl_error_tuple ''failed_verification''
     = Term (Tuple [Atom ''error'', Atom ''failed_verification'']) \<and>
   nacl_error_tuple ''failed_verification'' \<noteq> Badarg \<and>
   nacl_error_tuple ''failed_verification'' \<noteq> nacl_error_tuple ''alloc_failed'' \<and>
   nacl_error_tuple ''failed_verification'' \<noteq> Term (Binary plain)"
  by (auto simp: enif_crypto_secretbox_open_def enif_crypto_box_open_def
        enif_crypto_sign_open_def nacl_error_tuple_def enif_make_tuple2_def enif_make_atom_def
        Let_def split: prod.splits)

theorem C3_failed_verification_witness:
  "fst (enif_alloc_binary 80 idle_world) \<and>
   fst (crypto_secretbox_open stub_sodium (zeros 80) (zeros 24) (replicate 32 1)) \<noteq> 0 \<and>
   fst (enif_crypto_secretbox_open stub_sodium
         [Binary (zeros 80), Binary (zeros 24), Binary (replicate 32 1)] idle_world)
     = Term (Tuple [Atom ''error'', Atom ''failed_verification'']) \<and>
   fst (crypto_box_open stub_sodium (zeros 80) (zeros 24) (zeros 32) (replicate 32 1)) \<noteq> 0 \<and>
   fst (enif_crypto_box_open stub_sodium
         [Binary (zeros 80), Binary (zeros 24), Binary (zeros 32), Binary (replicate 32 1)]
         idle_world)
     = Term (Tuple [Atom ''error'', Atom ''failed_verification'']) \<and>
   fst (crypto_sign_open stub_sodium (replicate 80 1) (zeros 32)) \<noteq> 0 \<and>
   fst (enif_crypto_sign_open stub_sodium [Binary (replicate 80 1), Binary (zeros 32)] idle_world)
     = Term (Tuple [Atom ''error'', Atom ''failed_verification''])"
  using C3_failed_verification [where c = "Binary (zeros 80)" and ct = "zeros 80"
          and nonce = "zeros 24" and key = "replicate 32 1" and w = idle_world
          and S = stub_sodium and bc = "Binary (zeros 80)" and bct = "zeros 80"
          and bnonce = "zeros 24" and pk = "zeros 32" and sk = "replicate 32 1"
          and sm = "Binary (replicate 80 1)" and smt = "replicate 80 1" and spk = "zeros 32"
          and plain = "[]"]
  by (simp add: zeros_def stub_sodium_def enif_alloc_binary_def idle_world_def)

section \<open>Failed allocation\<close>

text \<open>
  C6: take any of the thirteen handlers that allocate an output buffer (hash, box,
  box_open, sign, sign_open, secretbox, secretbox_open, stream, stream_xor, auth,
  onetimeauth and the two key generators), called with arguments that pass its checks.
  If the allocator refuses the request, the handler returns \<open>{error, alloc_failed}\<close> and
  the refused request is all it did: no primitive was executed and the request was not
  repeated. If a key generator is granted its first buffer and refused the second, it
  returns the same value after exactly these two requests. And whenever a refused request
  appears in the trace of a call, it is the last event, preceded by granted requests only.
\<close>

theorem C6_alloc_failed:
  assumes "h \<in> {Enif_crypto_hash, Enif_crypto_box_keypair, Enif_crypto_box,
                 Enif_crypto_box_open, Enif_crypto_sign_keypair, Enif_crypto_sign,
                 Enif_crypto_sign_open, Enif_crypto_secretbox, Enif_crypto_secretbox_open,
                 Enif_crypto_stream, Enif_crypto_stream_xor, Enif_crypto_auth,
                 Enif_crypto_onetimeauth}"
    and "primitive_spec h = Some spec" and "args_ok spec argv"
  shows "(\<not> granted w \<longrightarrow>
            fst (nif_apply h S argv w) = nacl_error_tuple ''alloc_failed'' \<and>
            (\<exists>n. new_events w (snd (nif_apply h S argv w)) = [Alloc n False])) \<and>
         (h \<in> {Enif_crypto_box_keypair, Enif_crypto_sign_keypair} \<and>
          alloc_results w = True # False # rest \<longrightarrow>
            fst (nif_apply h S argv w) = nacl_error_tuple ''alloc_failed'' \<and>
            (\<exists>n. new_events w (snd (nif_apply h S argv w))
                   = [Alloc crypto_box_PUBLICKEYBYTES True, Alloc n False])) \<and>
         (Alloc k False \<in> set (new_events w (snd (nif_apply h S argv w))) \<longrightarrow>
            fst (nif_apply h S argv w) = nacl_error_tuple ''alloc_failed'' \<and>
            (\<exists>ks. new_events w (snd (nif_apply h S argv w))
                    = map (\<lambda>j. Alloc j True) ks @ [Alloc k False]))"
proof -
  from assms(1) have allocating: "h \<notin> {Enif_crypto_verify_16, Enif_crypto_verify_32,
      Enif_crypto_auth_verify, Enif_crypto_onetimeauth_verify}"
    by auto
  have first: "fst (nif_apply h S argv w) = nacl_error_tuple ''alloc_failed'' \<and>
      (\<exists>n. new_events w (snd (nif_apply h S argv w)) = [Alloc n False])"
    if starved: "\<not> granted w"
  proof -
    from allocation_attempted [OF assms(2,3) starved allocating, of S]
    obtain n where n: "new_events w (snd (nif_apply h S argv w)) = [Alloc n False]"
      by blast
    then have "Alloc n False \<in> set (new_events w (snd (nif_apply h S argv w)))"
      by simp
    then have "fst (nif_apply h S argv w) = nacl_error_tuple ''alloc_failed''"
      using alloc_failed_last by blast
    with n show ?thesis by blast
  qed
  have second: "fst (nif_apply h S argv w) = nacl_error_tuple ''alloc_failed'' \<and>
      (\<exists>n. new_events w (snd (nif_apply h S argv w))
             = [Alloc crypto_box_PUBLICKEYBYTES True, Alloc n False])"
    if kp: "h \<in> {Enif_crypto_box_keypair, Enif_crypto_sign_keypair}"
      and res: "alloc_results w = True # False # rest"
  proof -
    from kp assms(2) have "spec = []" by auto
    with assms(3) have "argv = []" by (simp add: args_ok_def)
    with keypair_second_refused [OF kp res, of S] show ?thesis by simp
  qed
  have third: "fst (nif_apply h S argv w) = nacl_error_tuple ''alloc_failed'' \<and>
      (\<exists>ks. new_events w (snd (nif_apply h S argv w))
              = map (\<lambda>j. Alloc j True) ks @ [Alloc k False])"
    if "Alloc k False \<in> set (new_events w (snd (nif_apply h S argv w)))"
    using that by (rule alloc_failed_last)
  from first second third show ?thesis by blast
qed

theorem C6_alloc_failed_witness:
  "\<not> granted starved_world \<and>
   nif_apply Enif_crypto_auth stub_sodium [Binary [], Binary (zeros 32)] starved_world
     = (Term (Tuple [Atom ''error'', Atom ''alloc_failed'']),
        \<lparr>alloc_results = [], rng_state = 0, trace = [Alloc 32 False]\<rparr>) \<and>
   nif_apply Enif_crypto_box_keypair stub_sodium []
       \<lparr>alloc_results = [True, False], rng_state = 0, trace = []\<rparr>
     = (Term (Tuple [Atom ''error'', Atom ''alloc_failed'']),
        \<lparr>alloc_results = [], rng_state = 0, trace = [Alloc 32 True, Alloc 32 False]\<rparr>)"
  using C6_alloc_failed [of Enif_crypto_auth "[Iolist Any_size, Flat (Exactly 32)]"
          "[Binary [], Binary (zeros 32)]" starved_world stub_sodium "[]" 32]
        C6_alloc_failed [of Enif_crypto_box_keypair "[]" "[]"
          "\<lparr>alloc_results = [True, False], rng_state = 0, trace = []\<rparr>" stub_sodium "[]" 32]
  by (simp add: args_ok_def granted_def starved_world_def zeros_def
        enif_crypto_auth_def enif_crypto_box_keypair_def enif_alloc_binary_def
        nacl_error_tuple_def enif_make_tuple2_def enif_make_atom_def)

section \<open>The sub-binary of an opened box\<close>

text \<open>
  C8: suppose the primitives \<open>crypto_secretbox_open\<close> and \<open>crypto_box_open\<close> fail on
  every padded ciphertext shorter than ZEROBYTES. Then the two handlers, whose guards let
  through everything of at least BOXZEROBYTES, never call \<^verbatim>\<open>enif_make_sub_binary\<close> outside
  the buffer: when they return a binary the ciphertext had at least ZEROBYTES bytes, the
  subtraction did not wrap around, and the binary has that many bytes less.
\<close>

theorem C8_no_underflow:
  assumes "\<forall>c n k. length c < crypto_secretbox_ZEROBYTES \<longrightarrow>
             fst (crypto_secretbox_open S c n k) \<noteq> 0"
    and "\<forall>c n pk sk. length c < crypto_box_ZEROBYTES \<longrightarrow>
             fst (crypto_box_open S c n pk sk) \<noteq> 0"
  shows "fst (enif_crypto_secretbox_open S argv w) \<noteq> Undefined_sub_binary \<and>
         (\<forall>b. fst (enif_crypto_secretbox_open S argv w) = Term (Binary b) \<longrightarrow>
            (\<exists>c. enif_inspect_iolist_as_binary (argv ! 0) = Some c \<and>
                 crypto_secretbox_ZEROBYTES \<le> length c \<and>
                 length b = length c - crypto_secretbox_ZEROBYTES \<and>
                 size_t_sub (length c) crypto_secretbox_ZEROBYTES
                   = length c - crypto_secretbox_ZEROBYTES)) \<and>
         fst (enif_crypto_box_open S bargv w) \<noteq> Undefined_sub_binary \<and>
         (\<forall>b. fst (enif_crypto_box_open S bargv w) = Term (Binary b) \<longrightarrow>
            (\<exists>c. enif_inspect_iolist_as_binary (bargv ! 0) = Some c \<and>
                 crypto_box_ZEROBYTES \<le> length c \<and>
                 length b = length c - crypto_box_ZEROBYTES \<and>
                 size_t_sub (length c) crypto_box_ZEROBYTES = length c - crypto_box_ZEROBYTES))"
proof -
  note secretbox = secretbox_open_no_underflow [OF assms(1), of argv w]
  note box = box_open_no_underflow [OF assms(2), of bargv w]
  show ?thesis
    by (rule conjI [OF secretbox [THEN conjunct1] conjI [OF secretbox [THEN conjunct2] box]])
qed

theorem C8_no_underflow_witness:
  "fst (enif_crypto_secretbox_open stub_sodium
         [Binary (zeros 16), Binary (zeros 24), Binary (zeros 32)] idle_world)
     \<noteq> Undefined_sub_binary \<and>
   fst (enif_crypto_box_open stub_sodium
         [Binary (zeros 16), Binary (zeros 24), Binary (zeros 32), Binary (zeros 32)] idle_world)
     \<noteq> Undefined_sub_binary"
proof -
  have secretbox: "\<forall>c n k. length c < crypto_secretbox_ZEROBYTES \<longrightarrow>
      fst (crypto_secretbox_open stub_sodium c n k) \<noteq> 0"
    by (simp add: stub_sodium_def)
  have box: "\<forall>c n pk sk. length c < crypto_box_ZEROBYTES \<longrightarrow>
      fst (crypto_box_open stub_sodium c n pk sk) \<noteq> 0"
    by (simp add: stub_sodium_def)
  note safe = C8_no_underflow [OF secretbox box,
      of "[Binary (zeros 16), Binary (zeros 24), Binary (zeros 32)]" idle_world
         "[Binary (zeros 16), Binary (zeros 24), Binary (zeros 32), Binary (zeros 32)]"]
  from safe have s: "fst (enif_crypto_secretbox_open stub_sodium
         [Binary (zeros 16), Binary (zeros 24), Binary (zeros 32)] idle_world)
     \<noteq> Undefined_sub_binary"
    by (rule conjunct1)
  from safe [THEN conjunct2, THEN conjunct2]
  have b: "fst (enif_crypto_box_open stub_sodium
         [Binary (zeros 16), Binary (zeros 24), Binary (zeros 32), Binary (zeros 32)] idle_world)
     \<noteq> Undefined_sub_binary"
    by (rule conjunct1)
  from s b show ?thesis by (intro conjI)
qed

section \<open>The lengths of streams\<close>

text \<open>
  C9, as the code has it: with a key of 32 bytes and a nonce of 24 bytes,
  \<^verbatim>\<open>enif_crypto_stream\<close> returns a binary of exactly the requested length for every
  requested length from 0 up to \<open>2^64 - 1\<close> whose output buffer is granted (the empty
  binary for 0; the handler has no bound of its own), and answers a length outside
  that range with badarg; \<^verbatim>\<open>enif_crypto_stream_xor\<close> returns a binary as long as the
  message whenever its output buffer is granted.
\<close>

theorem C9_stream_lengths:
  assumes "length k = crypto_stream_KEYBYTES" and "length n = crypto_stream_NONCEBYTES"
  shows "(0 \<le> clen \<and> clen < 2 ^ 64 \<and> fst (enif_alloc_binary (nat clen) w) \<longrightarrow>
            (\<exists>c. fst (enif_crypto_stream S [Integer clen, Binary n, Binary k] w)
                   = Term (Binary c) \<and> int (length c) = clen)) \<and>
         (clen < 0 \<or> 2 ^ 64 \<le> clen \<longrightarrow>
            enif_crypto_stream S [Integer clen, Binary n, Binary k] w = (Badarg, w)) \<and>
         (enif_inspect_iolist_as_binary m = Some mb \<and> fst (enif_alloc_binary (length mb) w) \<longrightarrow>
            (\<exists>c. fst (enif_crypto_stream_xor S [m, Binary n, Binary k] w)
                   = Term (Binary c) \<and> length c = length mb))"
  using assms
  by (auto simp: enif_crypto_stream_def enif_crypto_stream_xor_def enif_alloc_binary_eq
        enif_make_binary_def written_length)

theorem C9_stream_lengths_witness:
  "fst (enif_alloc_binary 0 idle_world) \<and>
   fst (enif_crypto_stream stub_sodium [Integer 0, Binary (zeros 24), Binary (zeros 32)] idle_world)
     = Term (Binary []) \<and>
   enif_crypto_stream stub_sodium
      [Integer (- 1), Binary (zeros 24), Binary (zeros 32)] idle_world = (Badarg, idle_world) \<and>
   fst (enif_alloc_binary 3 idle_world) \<and>
   (\<exists>c. fst (enif_crypto_stream_xor stub_sodium
               [ECons (Integer 1) (Binary [2, 3]), Binary (zeros 24), Binary (zeros 32)]
               idle_world)
          = Term (Binary c) \<and> length c = 3)"
  using C9_stream_lengths [of "zeros 32" "zeros 24" 0 idle_world stub_sodium
          "ECons (Integer 1) (Binary [2, 3])" "[1, 2, 3]"]
        C9_stream_lengths [of "zeros 32" "zeros 24" "- 1" idle_world stub_sodium
          "ECons (Integer 1) (Binary [2, 3])" "[1, 2, 3]"]
  by (simp add: zeros_def enif_alloc_binary_def idle_world_def numeral_3_eq_3)

text \<open>
  C9, as the claim has it, fails twice: the length \<open>2^64\<close>, with a valid key and nonce, is
  answered with badarg, and a length of 5 whose buffer is refused is answered with
  \<open>{error, alloc_failed}\<close>; neither is a binary of the requested length.
\<close>

theorem C9_counterexample:
  "length (zeros 32) = crypto_stream_KEYBYTES \<and> length (zeros 24) = crypto_stream_NONCEBYTES \<and>
   fst (enif_crypto_stream stub_sodium
          [Integer (2 ^ 64), Binary (zeros 24), Binary (zeros 32)] idle_world) = Badarg \<and>
   fst (enif_crypto_stream stub_sodium
          [Integer 5, Binary (zeros 24), Binary (zeros 32)] starved_world)
     = Term (Tuple [Atom ''error'', Atom ''alloc_failed''])"
  by (simp add: enif_crypto_stream_def zeros_def enif_alloc_binary_def starved_world_def
        nacl_error_tuple_def enif_make_tuple2_def enif_make_atom_def)

section \<open>Iolists for messages, binaries for keys\<close>

text \<open>
  C10: where a handler takes a message or a ciphertext, the argument may be any iolist: a
  call whose arguments fit the constraints, the message being an iolist, is not answered
  with badarg and, its buffer granted, executes the primitive; and the handler does with
  the iolist what it does with the binary the iolist flattens to. Where it takes a key, a
  nonce or an authenticator, the argument must be a binary: anything else, also an iolist
  that would flatten to the right number of bytes, is answered with badarg.
\<close>

theorem C10_iolist_message_flat_key:
  assumes "primitive_spec h = Some spec" and "i < length spec"
  shows "(spec ! i = Iolist c \<and> enif_inspect_iolist_as_binary t = Some b \<longrightarrow>
            nif_apply h S (argv[i := t]) w = nif_apply h S (argv[i := Binary b]) w) \<and>
         (spec ! i = Iolist c \<and> args_ok spec (argv[i := t]) \<longrightarrow>
            fst (nif_apply h S (argv[i := t]) w) \<noteq> Badarg \<and>
            (granted w \<longrightarrow>
               (\<exists>p. Exec p \<in> set (new_events w (snd (nif_apply h S (argv[i := t]) w)))))) \<and>
         (spec ! i = Flat c \<and> (\<forall>b'. argv ! i \<noteq> Binary b') \<longrightarrow>
            nif_apply h S argv w = (Badarg, w))"
proof -
  note not_keypair = iolist_position_not_keypair [OF assms]
  have accepted: "fst (nif_apply h S (argv[i := t]) w) \<noteq> Badarg \<and>
      (granted w \<longrightarrow>
         (\<exists>p. Exec p \<in> set (new_events w (snd (nif_apply h S (argv[i := t]) w)))))"
    if ok: "args_ok spec (argv[i := t])"
    using valid_not_badarg [OF assms(1) ok, of S w]
          accepted_runs [OF assms(1) ok _ not_keypair, of w S]
    by blast
  from accepted iolist_accepted [OF assms] flat_required [OF assms] show ?thesis
    by blast
qed

theorem C10_iolist_message_flat_key_witness:
  "enif_inspect_iolist_as_binary (ECons (Integer 7) (ECons (Binary (zeros 31)) ENil))
     = Some (7 # zeros 31) \<and>
   args_ok [Iolist (At_least 32), Flat (Exactly 24), Flat (Exactly 32)]
     [ECons (Integer 7) (ECons (Binary (zeros 31)) ENil), Binary (zeros 24), Binary (zeros 32)] \<and>
   enif_crypto_secretbox stub_sodium
        [ECons (Integer 7) (ECons (Binary (zeros 31)) ENil),
         Binary (zeros 24), Binary (zeros 32)] idle_world
     = (Term (Binary (zeros 16)),
        \<lparr>alloc_results = [], rng_state = 0,
         trace = [Alloc 32 True, Exec ''crypto_secretbox'']\<rparr>) \<and>
   enif_crypto_secretbox stub_sodium
        [Binary (7 # zeros 31), Binary (zeros 24), Binary (zeros 32)] idle_world
     = (Term (Binary (zeros 16)),
        \<lparr>alloc_results = [], rng_state = 0,
         trace = [Alloc 32 True, Exec ''crypto_secretbox'']\<rparr>) \<and>
   enif_crypto_secretbox stub_sodium
        [Binary (zeros 32), Binary (zeros 24), ECons (Binary (zeros 32)) ENil] idle_world
     = (Badarg, idle_world)"
  using C10_iolist_message_flat_key [of Enif_crypto_secretbox
          "[Iolist (At_least 32), Flat (Exactly 24), Flat (Exactly 32)]" 0
          "At_least 32" "ECons (Integer 7) (ECons (Binary (zeros 31)) ENil)"
          "7 # zeros 31" stub_sodium "[Binary [], Binary (zeros 24), Binary (zeros 32)]"
          idle_world]
        C10_iolist_message_flat_key [of Enif_crypto_secretbox
          "[Iolist (At_least 32), Flat (Exactly 24), Flat (Exactly 32)]" 2
          "Exactly 32" "Binary []" "[]" stub_sodium
          "[Binary (zeros 32), Binary (zeros 24), ECons (Binary (zeros 32)) ENil]" idle_world]
  by (simp add: zeros_def args_ok_def enif_crypto_secretbox_def enif_alloc_binary_def
        idle_world_def stub_sodium_def written_def enif_make_sub_binary_def size_t_sub_def
        executed_def)

end
